theory Spec2Isabelle
  imports Main "HOL-Library.Char_ord" "HOL-Library.List_Lexorder" "HOL-Library.AList"
begin

section \<open>Values of the program\<close>

text \<open>
  The service of \<^verbatim>\<open>src/index.js\<close> polls an upstream API for starred lifelogs and
  writes one Notion page per lifelog. Everything it does beyond computing is made explicit
  here: the two files it keeps, the clock, the three remote services and the console are
  inputs and outputs of the functions below.

  Timestamps are ISO-8601 strings (\<^verbatim>\<open>new Date().toISOString()\<close>, the
  \<^verbatim>\<open>updatedAt\<close>, \<^verbatim>\<open>endTime\<close>, \<^verbatim>\<open>startTime\<close> fields). JavaScript's
  \<^verbatim>\<open>a > b\<close> on two strings compares them code unit by code unit; the order on
  \<^typ>\<open>string\<close> used here is that lexicographic order on characters. It is the order of
  the code, not the chronological one.
\<close>

type_synonym timestamp = string

text \<open>
  An optional string field: \<open>None\<close> is a field that is absent (\<^verbatim>\<open>undefined\<close>).
  A value is truthy when it is present and not the empty string; \<open>js_or\<close> is
  \<^verbatim>\<open>a || b\<close>.
\<close>

definition truthy :: "string option \<Rightarrow> bool" where
  "truthy v = (case v of None \<Rightarrow> False | Some s \<Rightarrow> s \<noteq> [])"

definition js_or :: "string option \<Rightarrow> string option \<Rightarrow> string option" where
  "js_or a b = (if truthy a then a else b)"

text \<open>What a rejected promise or a \<^verbatim>\<open>throw\<close> carries.\<close>

datatype error =
    FsError string          \<comment> \<open>a file-system error and its \<^verbatim>\<open>error.code\<close>\<close>
  | SyntaxError             \<comment> \<open>\<^verbatim>\<open>JSON.parse\<close> or \<^verbatim>\<open>response.json()\<close> failed\<close>
  | TypeError               \<comment> \<open>a property read on \<^verbatim>\<open>null\<close> or \<^verbatim>\<open>undefined\<close>\<close>
  | NetworkError            \<comment> \<open>\<^verbatim>\<open>fetch\<close> rejected\<close>
  | ApiError nat            \<comment> \<open>\<^verbatim>\<open>!response.ok\<close>, with the status\<close>
  | MapperError             \<comment> \<open>the completion call or the parse of its answer failed\<close>

text \<open>
  A file as \<^verbatim>\<open>fs.readFile\<close> followed by \<^verbatim>\<open>JSON.parse\<close> sees it: the read fails
  with a code (\<^verbatim>\<open>ENOENT\<close> when the file does not exist), or the text does not parse, or
  it parses to \<^verbatim>\<open>null\<close> (the next property read then throws), or it parses to a value
  whose fields can be read.
\<close>

datatype 'a disk_file = ReadFails string | Malformed | NullValue | Holds 'a

text \<open>The outcome of one \<^verbatim>\<open>fs.writeFile\<close>: \<open>None\<close> when it succeeds.\<close>

type_synonym write_outcome = "error option"

section \<open>Watermark store\<close>

text \<open>The state file \<^verbatim>\<open>.last-seen-state.json\<close>: \<^verbatim>\<open>{ lastSeenTime }\<close>.\<close>

record state =
  lastSeenTime :: "string option"

definition saveLastSeenTime ::
  "write_outcome \<Rightarrow> timestamp \<Rightarrow> state disk_file \<Rightarrow> (error + unit) \<times> state disk_file" where
  "saveLastSeenTime wr ts f =
     (case wr of
        None \<Rightarrow> (Inr (), Holds \<lparr>lastSeenTime = Some ts\<rparr>)
      | Some e \<Rightarrow> (Inl e, f))"

text \<open>
  \<^verbatim>\<open>loadLastSeenTime\<close>: \<open>now\<close> is what \<^verbatim>\<open>new Date().toISOString()\<close> returns, \<open>wr\<close>
  the outcome of the write of the initialisation, should there be one.
\<close>

definition loadLastSeenTime ::
  "timestamp \<Rightarrow> write_outcome \<Rightarrow> state disk_file \<Rightarrow> (error + timestamp) \<times> state disk_file" where
  "loadLastSeenTime now wr f =
     (case f of
        Holds st \<Rightarrow>
          (Inr (if truthy (lastSeenTime st) then the (lastSeenTime st) else now), f)
      | ReadFails code \<Rightarrow>
          (if code = ''ENOENT''
           then (case saveLastSeenTime wr now f of
                   (Inl e, f') \<Rightarrow> (Inl e, f')
                 | (Inr u, f') \<Rightarrow> (Inr now, f'))
           else (Inl (FsError code), f))
      | Malformed \<Rightarrow> (Inl SyntaxError, f)
      | NullValue \<Rightarrow> (Inl TypeError, f))"

text \<open>The watermark a state file persists, if it persists one.\<close>

definition persisted :: "state disk_file \<Rightarrow> timestamp option" where
  "persisted f =
     (case f of
        Holds st \<Rightarrow> (if truthy (lastSeenTime st) then lastSeenTime st else None)
      | _ \<Rightarrow> None)"

section \<open>Lifelogs, schema and pages\<close>

text \<open>
  A lifelog as the program reads it. \<open>contents0\<close> stands for
  \<^verbatim>\<open>lifelog.contents?.[0]?.content\<close>, \<open>id'\<close> and \<open>text'\<close> for the fields
  \<^verbatim>\<open>id\<close> and \<^verbatim>\<open>text\<close>.
\<close>

record lifelog =
  id' :: "string option"
  title :: "string option"
  markdown :: "string option"
  text' :: "string option"
  contents0 :: "string option"
  updatedAt :: "string option"
  endTime :: "string option"
  startTime :: "string option"

text \<open>\<^verbatim>\<open>a || 'literal'\<close>: the result is always a string.\<close>

definition or_else :: "string option \<Rightarrow> string \<Rightarrow> string" where
  "or_else a d = (case a of None \<Rightarrow> d | Some s \<Rightarrow> if s \<noteq> [] then s else d)"

text \<open>\<^verbatim>\<open>lifelog.updatedAt || lifelog.endTime || lifelog.startTime\<close>\<close>

definition lifelogTimestamp :: "lifelog \<Rightarrow> string option" where
  "lifelogTimestamp l = js_or (js_or (updatedAt l) (endTime l)) (startTime l)"

definition lifelogTitle :: "lifelog \<Rightarrow> string" where
  "lifelogTitle l = or_else (js_or (title l) (contents0 l)) ''Untitled''"

definition lifelogTime :: "lifelog \<Rightarrow> string" where
  "lifelogTime l = or_else (lifelogTimestamp l) ''unknown''"

text \<open>
  The database schema: the entries of \<^verbatim>\<open>databaseSchema\<close> in the order of
  \<^verbatim>\<open>Object.keys\<close>, each property name with the \<^verbatim>\<open>type\<close> of its descriptor
  (the only part of a descriptor that the code below reads).
\<close>

type_synonym schema = "(string \<times> string) list"

text \<open>
  The \<^verbatim>\<open>properties\<close> of a page, in insertion order. \<open>OtherValue\<close> is any value
  of the mapper that is neither of the two shapes the fallback builds.
\<close>

datatype prop_value = TitleValue string | RichTextValue string | OtherValue string

type_synonym properties = "(string \<times> prop_value) list"

record page_data =
  properties :: properties
  children :: "string list"

text \<open>
  An HTTP exchange: \<^verbatim>\<open>fetch\<close> rejects, or answers with a status and a body;
  the body is \<open>None\<close> when \<^verbatim>\<open>response.json()\<close> rejects.
\<close>

datatype 'b response = Rejected | Response nat "'b option"

definition ok :: "nat \<Rightarrow> bool" where
  "ok status = (200 \<le> status \<and> status \<le> 299)"

text \<open>What the console receives.\<close>

datatype msg =
    LogPolling string
  | ErrFetching
  | LogNoNew
  | LogFound nat
  | LogProcessing string string
  | LogCreated string
  | ErrRecord string
  | LogUpdated string
  | WarnNoneProcessed nat
  | ErrProcessing
  | LogResponseStructure
  | WarnUnexpectedStructure
  | WarnDataKeys
  | WarnFullResponse
  | WarnUnexpectedType
  | LogAiGenerated
  | ErrAiFailed
  | ErrCreatingPage
  | LogUsingCached
  | LogFetchedSchema
  | ErrSchema
  | LogStarting
  | LogSchemaLoaded nat
  | ErrStartFailed

section \<open>Fetching starred lifelogs\<close>

text \<open>
  The parsed body of the upstream answer. The elements of an array are of a type left
  open, since the normalisation never looks into them; the polling cycle takes them to
  be lifelogs. Numbers are integers.
\<close>

datatype 'a json =
    JNull
  | JBool bool
  | JNum int
  | JStr string
  | JArr "'a list"
  | JObj "(string \<times> 'a json) list"

text \<open>\<^verbatim>\<open>data.k\<close> on a value that is not \<^verbatim>\<open>null\<close>; \<open>None\<close> is \<^verbatim>\<open>undefined\<close>.\<close>

fun field :: "string \<Rightarrow> 'a json \<Rightarrow> 'a json option" where
  "field k (JObj fs) = map_of fs k"
| "field k v = None"

fun json_truthy :: "'a json option \<Rightarrow> bool" where
  "json_truthy None = False"
| "json_truthy (Some JNull) = False"
| "json_truthy (Some (JBool b)) = b"
| "json_truthy (Some (JNum n)) = (n \<noteq> 0)"
| "json_truthy (Some (JStr s)) = (s \<noteq> [])"
| "json_truthy (Some (JArr xs)) = True"
| "json_truthy (Some (JObj fs)) = True"

text \<open>\<^verbatim>\<open>data.k && Array.isArray(data.k)\<close>, with the array when it holds.\<close>

definition array_prop :: "string \<Rightarrow> 'a json \<Rightarrow> 'a list option" where
  "array_prop k data = (case field k data of Some (JArr xs) \<Rightarrow> Some xs | _ \<Rightarrow> None)"

text \<open>\<^verbatim>\<open>data.data && data.data.lifelogs && Array.isArray(data.data.lifelogs)\<close>\<close>

definition nested_lifelogs :: "'a json \<Rightarrow> 'a list option" where
  "nested_lifelogs data =
     (case field ''data'' data of
        None \<Rightarrow> None
      | Some d \<Rightarrow> if json_truthy (Some d) then array_prop ''lifelogs'' d else None)"

text \<open>The two process-wide flags \<^verbatim>\<open>global._limitlessApi...\<close>.\<close>

record globals =
  responseLogged :: bool
  warningShown :: bool

text \<open>
  The part of \<^verbatim>\<open>fetchStarredLifelogs\<close> that handles the different response
  structures: the lifelogs, the flags and the warnings.
\<close>

definition handleResponse :: "globals \<Rightarrow> 'a json \<Rightarrow> 'a list \<times> globals \<times> msg list" where
  "handleResponse g data =
     (case data of
        JArr xs \<Rightarrow> (xs, g, [])
      | JObj fs \<Rightarrow>
          (case nested_lifelogs data of Some xs \<Rightarrow> (xs, g, []) | None \<Rightarrow>
           case array_prop ''lifelogs'' data of Some xs \<Rightarrow> (xs, g, []) | None \<Rightarrow>
           case array_prop ''data'' data of Some xs \<Rightarrow> (xs, g, []) | None \<Rightarrow>
           case array_prop ''results'' data of Some xs \<Rightarrow> (xs, g, []) | None \<Rightarrow>
           case array_prop ''items'' data of Some xs \<Rightarrow> (xs, g, []) | None \<Rightarrow>
             (if \<not> warningShown g
              then ([], g\<lparr>warningShown := True\<rparr>,
                    [WarnUnexpectedStructure]
                    @ (if json_truthy (field ''data'' data) then [WarnDataKeys] else [])
                    @ [WarnFullResponse])
              else ([], g, [])))
      | _ \<Rightarrow> ([], g, [WarnUnexpectedType]))"

definition fetchStarredLifelogs ::
  "globals \<Rightarrow> 'a json response \<Rightarrow> (error + 'a list) \<times> globals \<times> msg list" where
  "fetchStarredLifelogs g resp =
     (case resp of
        Rejected \<Rightarrow> (Inl NetworkError, g, [ErrFetching])
      | Response status body \<Rightarrow>
          if \<not> ok status then (Inl (ApiError status), g, [ErrFetching])
          else (case body of
                  None \<Rightarrow> (Inl SyntaxError, g, [ErrFetching])
                | Some data \<Rightarrow>
                    (let g1 = (if \<not> responseLogged g then g\<lparr>responseLogged := True\<rparr> else g);
                         log1 = (if \<not> responseLogged g then [LogResponseStructure] else [])
                     in case handleResponse g1 data of
                          (lifelogs, g2, log2) \<Rightarrow> (Inr lifelogs, g2, log1 @ log2))))"

section \<open>Creating a page\<close>

text \<open>
  The fallback mapping of \<^verbatim>\<open>createNotionPage\<close>, built when the mapper has thrown.
  \<open>AList.update\<close> is the assignment \<^verbatim>\<open>properties[contentProp] = ...\<close>: it replaces
  the value of a key that is there and appends a new key.
\<close>

definition fallbackProperties :: "lifelog \<Rightarrow> schema \<Rightarrow> properties" where
  "fallbackProperties l databaseSchema =
     (let properties = [(''Title'', TitleValue (or_else (title l) ''Untitled''))]
      in if truthy (js_or (markdown l) (text' l))
         then (case find (\<lambda>(key, ty). ty = ''rich_text'') databaseSchema of
                 None \<Rightarrow> properties
               | Some (contentProp, ty) \<Rightarrow>
                   if contentProp \<noteq> []
                   then AList.update contentProp
                          (RichTextValue (or_else (js_or (markdown l) (text' l)) []))
                          properties
                   else properties)
         else properties)"

text \<open>
  What the two remote services answer for one lifelog: the mapper
  (\<^verbatim>\<open>generatePropertyMapping\<close>: its properties, or the error it throws; what it
  logs itself is left out) and the \<^verbatim>\<open>POST /v1/pages\<close> exchange.
\<close>

record page_env =
  mapper :: "error + properties"
  post :: "unit response"

definition pageData :: "page_env \<Rightarrow> lifelog \<Rightarrow> schema \<Rightarrow> page_data" where
  "pageData env l databaseSchema =
     \<lparr>properties = (case mapper env of
                       Inr p \<Rightarrow> p
                     | Inl e \<Rightarrow> fallbackProperties l databaseSchema),
      children = (if truthy (markdown l) then [the (markdown l)] else [])\<rparr>"

text \<open>
  \<^verbatim>\<open>createNotionPage\<close>: its result, the request it has sent and what it has logged.
  The request is sent on every path.
\<close>

definition createNotionPage ::
  "page_env \<Rightarrow> lifelog \<Rightarrow> schema \<Rightarrow> (error + unit) \<times> page_data \<times> msg list" where
  "createNotionPage env l databaseSchema =
     (let log1 = (case mapper env of Inr p \<Rightarrow> [LogAiGenerated] | Inl e \<Rightarrow> [ErrAiFailed]);
          request = pageData env l databaseSchema
      in case post env of
           Rejected \<Rightarrow> (Inl NetworkError, request, log1 @ [ErrCreatingPage])
         | Response status body \<Rightarrow>
             if \<not> ok status then (Inl (ApiError status), request, log1 @ [ErrCreatingPage])
             else (case body of
                     None \<Rightarrow> (Inl SyntaxError, request, log1 @ [ErrCreatingPage])
                   | Some u \<Rightarrow> (Inr (), request, log1)))"

section \<open>One polling cycle\<close>

text \<open>The variables of the loop over the lifelogs, with what it logs and sends.\<close>

record loop_state =
  maxTimestamp :: string
  processedCount :: nat
  out :: "msg list"
  requests :: "page_data list"

text \<open>The body of the loop, for one lifelog and the answers of the services for it.\<close>

definition process_one :: "schema \<Rightarrow> loop_state \<Rightarrow> lifelog \<times> page_env \<Rightarrow> loop_state" where
  "process_one databaseSchema st x =
     (case x of (l, env) \<Rightarrow>
      case createNotionPage env l databaseSchema of
        (Inr u, request, lg) \<Rightarrow>
          st\<lparr>maxTimestamp :=
                (if truthy (lifelogTimestamp l) \<and> the (lifelogTimestamp l) > maxTimestamp st
                 then the (lifelogTimestamp l) else maxTimestamp st),
             processedCount := processedCount st + 1,
             out := out st @ [LogProcessing (lifelogTitle l) (lifelogTime l)] @ lg
                      @ [LogCreated (lifelogTitle l)],
             requests := requests st @ [request]\<rparr>
      | (Inl e, request, lg) \<Rightarrow>
          st\<lparr>out := out st @ [LogProcessing (lifelogTitle l) (lifelogTime l)] @ lg
                      @ [ErrRecord (or_else (id' l) ''unknown'')],
             requests := requests st @ [request]\<rparr>)"

fun process_lifelogs ::
  "schema \<Rightarrow> (lifelog \<times> page_env) list \<Rightarrow> loop_state \<Rightarrow> loop_state" where
  "process_lifelogs databaseSchema [] st = st"
| "process_lifelogs databaseSchema (x # xs) st =
     process_lifelogs databaseSchema xs (process_one databaseSchema st x)"

text \<open>
  The surroundings of one cycle: the clock read by the load, the outcome of the two
  writes of the state file, the upstream answer to the query from a given start, and
  the answers of the mapper and of the destination for the lifelog at each position of
  the batch.
\<close>

record world =
  clock :: timestamp
  init_write :: write_outcome
  source :: "timestamp \<Rightarrow> lifelog json response"
  services :: "nat \<Rightarrow> page_env"
  save_write :: write_outcome

record system =
  state_file :: "state disk_file"
  flags :: globals
  console :: "msg list"
  posted :: "page_data list"

definition batch :: "world \<Rightarrow> lifelog list \<Rightarrow> (lifelog \<times> page_env) list" where
  "batch w lifelogs = zip lifelogs (map (services w) [0..<length lifelogs])"

text \<open>
  The loop variables before the first lifelog (\<^verbatim>\<open>maxTimestamp = lastSeenTime\<close>,
  \<^verbatim>\<open>processedCount = 0\<close>), with the console as the cycle has left it so far.
\<close>

definition loop_start :: "system \<Rightarrow> string \<Rightarrow> msg list \<Rightarrow> nat \<Rightarrow> loop_state" where
  "loop_start s lastSeen lg n =
     \<lparr>maxTimestamp = lastSeen, processedCount = 0,
      out = console s @ [LogPolling lastSeen] @ lg @ [LogFound n],
      requests = posted s\<rparr>"

text \<open>
  The \<^verbatim>\<open>try\<close> block of \<^verbatim>\<open>processNewLifelogs\<close>. What
  \<^verbatim>\<open>fetchStarredLifelogs\<close> returns is always an array, so the branch for a value
  that is not one is never taken.
\<close>

definition cycle_body :: "schema \<Rightarrow> world \<Rightarrow> system \<Rightarrow> (error + unit) \<times> system" where
  "cycle_body databaseSchema w s =
     (case loadLastSeenTime (clock w) (init_write w) (state_file s) of
        (Inl e, f) \<Rightarrow> (Inl e, s\<lparr>state_file := f\<rparr>)
      | (Inr lastSeen, f) \<Rightarrow>
          (case fetchStarredLifelogs (flags s) (source w lastSeen) of
             (Inl e, g, lg) \<Rightarrow>
               (Inr (), s\<lparr>state_file := f, flags := g,
                          console := console s @ [LogPolling lastSeen] @ lg @ [ErrFetching]\<rparr>)
           | (Inr lifelogs, g, lg) \<Rightarrow>
               if lifelogs = []
               then (Inr (), s\<lparr>state_file := f, flags := g,
                               console := console s @ [LogPolling lastSeen] @ lg @ [LogNoNew]\<rparr>)
               else
                 (let st = process_lifelogs databaseSchema (batch w lifelogs)
                             (loop_start s lastSeen lg (length lifelogs))
                  in if processedCount st > 0
                     then (case saveLastSeenTime (save_write w) (maxTimestamp st) f of
                             (Inl e, f') \<Rightarrow>
                               (Inl e, \<lparr>state_file = f', flags = g, console = out st,
                                        posted = requests st\<rparr>)
                           | (Inr u, f') \<Rightarrow>
                               (Inr (), \<lparr>state_file = f', flags = g,
                                         console = out st @ [LogUpdated (maxTimestamp st)],
                                         posted = requests st\<rparr>))
                     else (Inr (), \<lparr>state_file = f, flags = g,
                                    console = out st @ [WarnNoneProcessed (length lifelogs)],
                                    posted = requests st\<rparr>))))"

text \<open>\<^verbatim>\<open>processNewLifelogs\<close>: the block and the \<^verbatim>\<open>catch\<close> around it.\<close>

definition processNewLifelogs ::
  "schema \<Rightarrow> world \<Rightarrow> system \<Rightarrow> (error + unit) \<times> system" where
  "processNewLifelogs databaseSchema w s =
     (case cycle_body databaseSchema w s of
        (Inl e, s') \<Rightarrow> (Inr (), s'\<lparr>console := console s' @ [ErrProcessing]\<rparr>)
      | (Inr u, s') \<Rightarrow> (Inr (), s'))"

text \<open>A run of cycles one after the other, each in its own surroundings.\<close>

fun run_cycles :: "schema \<Rightarrow> world list \<Rightarrow> system \<Rightarrow> system" where
  "run_cycles databaseSchema [] s = s"
| "run_cycles databaseSchema (w # ws) s =
     run_cycles databaseSchema ws (snd (processNewLifelogs databaseSchema w s))"

text \<open>
  What the loop is expected to compute: whether the page of a lifelog was written, and the
  timestamps of the lifelogs that were written and have one.
\<close>

definition written :: "schema \<Rightarrow> lifelog \<times> page_env \<Rightarrow> bool" where
  "written databaseSchema x =
     (case x of (l, env) \<Rightarrow> fst (createNotionPage env l databaseSchema) = Inr ())"

definition stamps :: "(lifelog \<times> page_env) list \<Rightarrow> string list" where
  "stamps xs = map (\<lambda>x. the (lifelogTimestamp (fst x)))
                   (filter (\<lambda>x. truthy (lifelogTimestamp (fst x))) xs)"

section \<open>Schema cache and start of the service\<close>

text \<open>
  The cache file \<^verbatim>\<open>.notion-schema-cache.json\<close>: \<^verbatim>\<open>{ schema, timestamp }\<close>, either
  of which may be missing from a file that parses. The timestamp is in milliseconds.
\<close>

record cache_data =
  schema :: "schema option"
  timestamp :: "int option"

text \<open>
  The parsed body of the answer of \<^verbatim>\<open>GET /v1/databases/{id}\<close>: \<^verbatim>\<open>null\<close>, on
  which the read of \<^verbatim>\<open>database.properties\<close> throws, or a value with its
  \<^verbatim>\<open>properties\<close>, \<open>None\<close> when it has none (or a falsy one).
\<close>

datatype database = NullBody | Database "schema option"

text \<open>
  The surroundings of the getter: \<^verbatim>\<open>Date.now()\<close> at the age check and at the write,
  the answer of the destination and the outcome of the write of the cache file.
\<close>

record schema_env =
  check_now :: int
  live :: "database response"
  write_now :: int
  cache_write :: write_outcome

text \<open>
  The inner \<^verbatim>\<open>try\<close>: the cached schema when the file is read, parsed and less than
  one hour old. Every exception in it is swallowed; a missing timestamp makes the
  comparison false.
\<close>

definition fresh_cache :: "int \<Rightarrow> cache_data disk_file \<Rightarrow> schema option option" where
  "fresh_cache now f =
     (case f of
        Holds cacheData \<Rightarrow>
          (case timestamp cacheData of
             None \<Rightarrow> None
           | Some ts \<Rightarrow> if now - ts < 3600000 then Some (schema cacheData) else None)
      | _ \<Rightarrow> None)"

text \<open>
  \<^verbatim>\<open>fetchNotionDatabaseSchema\<close>: its result (\<open>Inr None\<close> is \<^verbatim>\<open>undefined\<close>, returned
  from a cache file that has no schema), the cache file, the log and the number of live
  fetches it has made.
\<close>

definition fetchNotionDatabaseSchema ::
  "schema_env \<Rightarrow> cache_data disk_file
     \<Rightarrow> (error + schema option) \<times> cache_data disk_file \<times> msg list \<times> nat" where
  "fetchNotionDatabaseSchema env f =
     (case fresh_cache (check_now env) f of
        Some cached \<Rightarrow> (Inr cached, f, [LogUsingCached], 0)
      | None \<Rightarrow>
          (case live env of
             Rejected \<Rightarrow> (Inl NetworkError, f, [ErrSchema], 1)
           | Response status body \<Rightarrow>
               if \<not> ok status then (Inl (ApiError status), f, [ErrSchema], 1)
               else (case body of
                       None \<Rightarrow> (Inl SyntaxError, f, [ErrSchema], 1)
                     | Some NullBody \<Rightarrow> (Inl TypeError, f, [ErrSchema], 1)
                     | Some (Database props) \<Rightarrow>
                         (let schema = (case props of Some p \<Rightarrow> p | None \<Rightarrow> [])
                          in case cache_write env of
                               Some e \<Rightarrow> (Inl e, f, [ErrSchema], 1)
                             | None \<Rightarrow>
                                 (Inr (Some schema),
                                  Holds \<lparr>schema = Some schema, timestamp = Some (write_now env)\<rparr>,
                                  [LogFetchedSchema], 1)))))"

text \<open>
  \<^verbatim>\<open>startPolling\<close>, observed after the cycles run so far (the immediate one, then one
  per tick of the interval): the live fetches of the schema it has made, the exit code if
  the process has exited, the cache file and the state. The variable
  \<^verbatim>\<open>databaseSchema\<close> is assigned once, from the getter, and handed to every cycle.
  A getter that throws, or that returns \<^verbatim>\<open>undefined\<close> (on which
  \<^verbatim>\<open>Object.keys\<close> throws), ends the process with code 1 before any cycle.
  \<open>LogStarting\<close> stands for the lines logged before the getter is called,
  \<open>LogSchemaLoaded\<close> for the line with the number of properties, and
  \<open>ErrStartFailed\<close> for the two lines logged before the exit.
\<close>

record run =
  live_fetches :: nat
  exit_code :: "nat option"
  cache_file :: "cache_data disk_file"
  sys :: system

fun poll :: "schema \<Rightarrow> world list \<Rightarrow> run \<Rightarrow> run" where
  "poll databaseSchema [] r = r"
| "poll databaseSchema (w # ws) r =
     poll databaseSchema ws
       (r\<lparr>sys := snd (processNewLifelogs databaseSchema w (sys r))\<rparr>)"

definition startPolling ::
  "schema_env \<Rightarrow> cache_data disk_file \<Rightarrow> world list \<Rightarrow> system \<Rightarrow> run" where
  "startPolling env cache ws s =
     (case fetchNotionDatabaseSchema env cache of
        (Inl e, cache', lg, n) \<Rightarrow>
          \<lparr>live_fetches = n, exit_code = Some 1, cache_file = cache',
           sys = s\<lparr>console := console s @ [LogStarting] @ lg @ [ErrStartFailed]\<rparr>\<rparr>
      | (Inr None, cache', lg, n) \<Rightarrow>
          \<lparr>live_fetches = n, exit_code = Some 1, cache_file = cache',
           sys = s\<lparr>console := console s @ [LogStarting] @ lg @ [ErrStartFailed]\<rparr>\<rparr>
      | (Inr (Some databaseSchema), cache', lg, n) \<Rightarrow>
          poll databaseSchema ws
            \<lparr>live_fetches = n, exit_code = None, cache_file = cache',
             sys = s\<lparr>console := console s @ [LogStarting] @ lg
                                  @ [LogSchemaLoaded (length databaseSchema)]\<rparr>\<rparr>)"

text \<open>The three messages that only the schema getter logs, one on each of its paths.\<close>

definition is_getter_msg :: "msg \<Rightarrow> bool" where
  "is_getter_msg m = (m = LogUsingCached \<or> m = LogFetchedSchema \<or> m = ErrSchema)"

section \<open>Timestamps as instants\<close>

text \<open>
  The timestamps of the specification are ISO-8601 instants: its maximum of timestamps
  and its watermark that never decreases are about them. The code never reads a
  timestamp as an instant, it compares the strings. \<open>instant\<close> is the reading of the
  specification, not a part of the code, for a UTC timestamp
  \<^verbatim>\<open>YYYY-MM-DDThh:mm:ss\<close>, an optional fraction of a second and \<^verbatim>\<open>Z\<close>: the
  number with the digits of the date and of the time of day, followed by the
  milliseconds. It grows as time does.
\<close>

definition is_digit :: "char \<Rightarrow> bool" where
  "is_digit c = (CHR ''0'' \<le> c \<and> c \<le> CHR ''9'')"

definition digit_value :: "char \<Rightarrow> nat" where
  "digit_value c = of_char c - of_char (CHR ''0'')"

fun digits_value :: "nat \<Rightarrow> string \<Rightarrow> nat" where
  "digits_value n [] = n"
| "digits_value n (c # cs) =
     digits_value (if is_digit c then 10 * n + digit_value c else n) cs"

definition millis :: "string \<Rightarrow> nat" where
  "millis rest =
     (case rest of
        [] \<Rightarrow> 0
      | c # fs \<Rightarrow>
          if c = CHR ''.'' then digits_value 0 (take 3 (takeWhile is_digit fs @ ''000''))
          else 0)"

definition instant :: "string \<Rightarrow> nat" where
  "instant ts = digits_value 0 (take 19 ts) * 1000 + millis (drop 19 ts)"

section \<open>Example inputs\<close>

text \<open>
  Two lifelogs, a destination that accepts the first page and refuses the second, a
  mapper that throws, and a state file that holds a watermark.
\<close>

definition lifelog_a :: lifelog where
  "lifelog_a = \<lparr>id' = Some ''a'', title = Some ''T'', markdown = None, text' = None,
                 contents0 = None, updatedAt = Some ''2025-01-01T00:00:05Z'',
                 endTime = None, startTime = None\<rparr>"

definition lifelog_b :: lifelog where
  "lifelog_b = \<lparr>id' = Some ''b'', title = None, markdown = Some ''hello'', text' = None,
                 contents0 = None, updatedAt = None,
                 endTime = Some ''2025-01-01T00:00:09Z'', startTime = None\<rparr>"

definition env_ok :: page_env where
  "env_ok = \<lparr>mapper = Inl MapperError, post = Response 200 (Some ())\<rparr>"

definition env_fail :: page_env where
  "env_fail = \<lparr>mapper = Inl MapperError, post = Response 400 (Some ())\<rparr>"

definition world0 :: world where
  "world0 = \<lparr>clock = ''2025-01-01T00:00:01Z'', init_write = None,
              source = (\<lambda>start. Response 200
                 (Some (JObj [(''data'', JObj [(''lifelogs'', JArr [lifelog_a, lifelog_b])])]))),
              services = (\<lambda>i. if i = 0 then env_ok else env_fail),
              save_write = None\<rparr>"

definition system0 :: system where
  "system0 = \<lparr>state_file = Holds \<lparr>lastSeenTime = Some ''2025-01-01T00:00:00Z''\<rparr>,
               flags = \<lparr>responseLogged = False, warningShown = False\<rparr>,
               console = [], posted = []\<rparr>"

definition schema0 :: schema where
  "schema0 = [(''Name'', ''title''), (''Notes'', ''rich_text'')]"



text \<open>Surroundings in which the upstream service answers 503.\<close>

definition world_down :: world where
  "world_down = \<lparr>clock = ''2025-01-01T00:00:01Z'', init_write = None,
                  source = (\<lambda>start. Response 503 None),
                  services = (\<lambda>i. env_ok), save_write = None\<rparr>"

text \<open>
  A cache file written one thousand seconds before the getter runs, a getter that can
  reach the destination, and one that cannot and runs two hours later.
\<close>

definition cache_fresh :: "cache_data disk_file" where
  "cache_fresh = Holds \<lparr>schema = Some schema0, timestamp = Some 1000000\<rparr>"

definition env_boot :: schema_env where
  "env_boot = \<lparr>check_now = 2000000, live = Response 200 (Some (Database (Some schema0))),
                write_now = 2000500, cache_write = None\<rparr>"

definition env_offline :: schema_env where
  "env_offline = \<lparr>check_now = 9000000, live = Rejected,
                   write_now = 9000500, cache_write = None\<rparr>"



text \<open>A response body that is an object of none of the known shapes.\<close>

definition odd_object :: "lifelog json" where
  "odd_object = JObj [(''foo'', JNum 1)]"

text \<open>
  A state file whose watermark has no fraction of a second and a lifelog updated half a
  second later, written with one; a state file whose watermark has a fraction and a
  lifelog updated within the same second, written without one. In both surroundings the
  destination accepts the page.
\<close>

definition lifelog_late :: lifelog where
  "lifelog_late = \<lparr>id' = Some ''late'', title = Some ''L'', markdown = None, text' = None,
                    contents0 = None, updatedAt = Some ''2025-01-01T00:00:05.500Z'',
                    endTime = None, startTime = None\<rparr>"

definition system_05 :: system where
  "system_05 = \<lparr>state_file = Holds \<lparr>lastSeenTime = Some ''2025-01-01T00:00:05Z''\<rparr>,
                 flags = \<lparr>responseLogged = False, warningShown = False\<rparr>,
                 console = [], posted = []\<rparr>"

definition world_late :: world where
  "world_late = \<lparr>clock = ''2025-01-01T00:01:00.000Z'', init_write = None,
                  source = (\<lambda>start. Response 200 (Some (JArr [lifelog_late]))),
                  services = (\<lambda>i. env_ok), save_write = None\<rparr>"

definition lifelog_short :: lifelog where
  "lifelog_short = \<lparr>id' = Some ''short'', title = Some ''S'', markdown = None, text' = None,
                     contents0 = None, updatedAt = Some ''2025-01-01T00:00:05Z'',
                     endTime = None, startTime = None\<rparr>"

definition system_999 :: system where
  "system_999 = \<lparr>state_file = Holds \<lparr>lastSeenTime = Some ''2025-01-01T00:00:05.999Z''\<rparr>,
                  flags = \<lparr>responseLogged = False, warningShown = False\<rparr>,
                  console = [], posted = []\<rparr>"

definition world_short :: world where
  "world_short = \<lparr>clock = ''2025-01-01T00:01:00.000Z'', init_write = None,
                   source = (\<lambda>start. Response 200 (Some (JArr [lifelog_short]))),
                   services = (\<lambda>i. env_ok), save_write = None\<rparr>"

text \<open>A cache file that parses, is one thousand seconds old and has no schema.\<close>

definition cache_no_schema :: "cache_data disk_file" where
  "cache_no_schema = Holds \<lparr>schema = None, timestamp = Some 1000000\<rparr>"

section \<open>Properties of the watermark store\<close>

text \<open>
  Claim C6. Loading when the state file does not exist (the read fails with
  \<^verbatim>\<open>ENOENT\<close>) initialises the watermark to the current time, persists it and returns
  it: not-found is not an error. Every other failure of the load is returned to the
  caller as an error and leaves the file as it was: a read that fails with another code,
  a text that does not parse, a parsed \<^verbatim>\<open>null\<close>, and the failed write of the
  initialisation itself.
\<close>

theorem loadLastSeenTime_init_or_propagate:
  "loadLastSeenTime now None (ReadFails ''ENOENT'')
     = (Inr now, Holds \<lparr>lastSeenTime = Some now\<rparr>)
   \<and> loadLastSeenTime now (Some e) (ReadFails ''ENOENT'') = (Inl e, ReadFails ''ENOENT'')
   \<and> (code \<noteq> ''ENOENT'' \<longrightarrow>
        loadLastSeenTime now wr (ReadFails code) = (Inl (FsError code), ReadFails code))
   \<and> loadLastSeenTime now wr Malformed = (Inl SyntaxError, Malformed)
   \<and> loadLastSeenTime now wr NullValue = (Inl TypeError, NullValue)"
  by (simp add: loadLastSeenTime_def saveLastSeenTime_def)

theorem loadLastSeenTime_init_or_propagate_witness:
  "loadLastSeenTime ''2025-01-01T00:00:00.000Z'' None (ReadFails ''ENOENT'')
     = (Inr ''2025-01-01T00:00:00.000Z'',
        Holds \<lparr>lastSeenTime = Some ''2025-01-01T00:00:00.000Z''\<rparr>)
   \<and> ''EACCES'' \<noteq> ''ENOENT''
   \<and> loadLastSeenTime ''2025-01-01T00:00:00.000Z'' None (ReadFails ''EACCES'')
     = (Inl (FsError ''EACCES''), ReadFails ''EACCES'')"
  using loadLastSeenTime_init_or_propagate
    [of "''2025-01-01T00:00:00.000Z''" "FsError ''EIO''" "''EACCES''" None]
  by simp

text \<open>
  Claim C10. When the state file exists and parses to a value whose
  \<^verbatim>\<open>lastSeenTime\<close> is absent or falsy (the empty string), the load returns the current
  time and writes nothing: the file is left as it was, whatever the write would have done,
  and two loads of that same file at two different times return two different values.
\<close>

theorem loadLastSeenTime_falsy_not_persisted:
  "\<not> truthy (lastSeenTime st) \<Longrightarrow>
     loadLastSeenTime now wr (Holds st) = (Inr now, Holds st)
   \<and> (now \<noteq> now' \<longrightarrow>
        fst (loadLastSeenTime now wr (Holds st))
          \<noteq> fst (loadLastSeenTime now' wr' (snd (loadLastSeenTime now wr (Holds st)))))"
  by (simp add: loadLastSeenTime_def)

theorem loadLastSeenTime_falsy_not_persisted_witness:
  "\<not> truthy (lastSeenTime \<lparr>lastSeenTime = None\<rparr>)
   \<and> loadLastSeenTime ''2025-01-01T00:00:00Z'' None (Holds \<lparr>lastSeenTime = None\<rparr>)
       = (Inr ''2025-01-01T00:00:00Z'', Holds \<lparr>lastSeenTime = None\<rparr>)
   \<and> fst (loadLastSeenTime ''2025-01-01T00:00:00Z'' None (Holds \<lparr>lastSeenTime = None\<rparr>))
       \<noteq> fst (loadLastSeenTime ''2025-01-01T00:00:30Z'' None
                (snd (loadLastSeenTime ''2025-01-01T00:00:00Z'' None
                        (Holds \<lparr>lastSeenTime = None\<rparr>))))"
proof -
  have h: "\<not> truthy (lastSeenTime \<lparr>lastSeenTime = None\<rparr>)"
    by (simp add: truthy_def)
  have d: "''2025-01-01T00:00:00Z'' \<noteq> ''2025-01-01T00:00:30Z''"
    by simp
  note t = loadLastSeenTime_falsy_not_persisted
    [OF h, of "''2025-01-01T00:00:00Z''" None "''2025-01-01T00:00:30Z''" None]
  note t1 = conjunct1 [OF t]
  note t2 = mp [OF conjunct2 [OF t] d]
  from h t1 t2 show ?thesis by (intro conjI)
qed

section \<open>Properties of the loop over the lifelogs\<close>

lemma createNotionPage_request:
  "fst (snd (createNotionPage env l sch)) = pageData env l sch"
  by (simp add: createNotionPage_def Let_def split: response.split option.split)

lemma process_one_requests:
  "requests (process_one sch st x) = requests st @ [pageData (snd x) (fst x) sch]"
proof -
  obtain l env where x: "x = (l, env)" by (cases x)
  obtain r rq lg where c: "createNotionPage env l sch = (r, rq, lg)"
    by (cases "createNotionPage env l sch")
  from c have "fst (snd (createNotionPage env l sch)) = rq" by simp
  then have rq: "rq = pageData env l sch" by (simp add: createNotionPage_request)
  show ?thesis
    by (cases r) (simp_all add: process_one_def x c rq)
qed

lemma process_lifelogs_requests:
  "requests (process_lifelogs sch xs st)
     = requests st @ map (\<lambda>x. pageData (snd x) (fst x) sch) xs"
  by (induction xs arbitrary: st) (simp_all add: process_one_requests)

lemma process_one_count:
  "processedCount (process_one sch st x)
     = processedCount st + (if written sch x then 1 else 0)"
proof -
  obtain l env where x: "x = (l, env)" by (cases x)
  obtain r rq lg where c: "createNotionPage env l sch = (r, rq, lg)"
    by (cases "createNotionPage env l sch")
  show ?thesis
    by (cases r) (simp_all add: process_one_def written_def x c)
qed

lemma process_lifelogs_count:
  "processedCount (process_lifelogs sch xs st)
     = processedCount st + length (filter (written sch) xs)"
  by (induction xs arbitrary: st) (simp_all add: process_one_count)

lemma process_one_max:
  "maxTimestamp (process_one sch st x)
     = (if written sch x \<and> truthy (lifelogTimestamp (fst x))
        then max (maxTimestamp st) (the (lifelogTimestamp (fst x)))
        else maxTimestamp st)"
proof -
  obtain l env where x: "x = (l, env)" by (cases x)
  obtain r rq lg where c: "createNotionPage env l sch = (r, rq, lg)"
    by (cases "createNotionPage env l sch")
  show ?thesis
    by (cases r) (auto simp add: process_one_def written_def x c max_def)
qed

lemma process_lifelogs_max_fold:
  "maxTimestamp (process_lifelogs sch xs st)
     = fold max (stamps (filter (written sch) xs)) (maxTimestamp st)"
  by (induction xs arbitrary: st) (simp_all add: process_one_max stamps_def max.commute)

lemma process_lifelogs_max:
  "maxTimestamp (process_lifelogs sch xs st)
     = Max (set (maxTimestamp st # stamps (filter (written sch) xs)))"
  by (simp only: process_lifelogs_max_fold Max.set_eq_fold)

lemma batch_fst: "map fst (batch w ls) = ls"
  by (simp add: batch_def)

section \<open>Properties of one cycle\<close>

lemma cycle_nonempty:
  assumes load: "loadLastSeenTime (clock w) (init_write w) (state_file s) = (Inr lastSeen, f)"
      and fetch: "fetchStarredLifelogs (flags s) (source w lastSeen) = (Inr lifelogs, g, lg)"
      and nonempty: "lifelogs \<noteq> []"
  shows "snd (processNewLifelogs sch w s) =
     (let st = process_lifelogs sch (batch w lifelogs)
                 (loop_start s lastSeen lg (length lifelogs))
      in if processedCount st > 0
         then (case save_write w of
                 None \<Rightarrow> \<lparr>state_file = Holds \<lparr>lastSeenTime = Some (maxTimestamp st)\<rparr>,
                           flags = g, console = out st @ [LogUpdated (maxTimestamp st)],
                           posted = requests st\<rparr>
               | Some e \<Rightarrow> \<lparr>state_file = f, flags = g, console = out st @ [ErrProcessing],
                             posted = requests st\<rparr>)
         else \<lparr>state_file = f, flags = g,
               console = out st @ [WarnNoneProcessed (length lifelogs)],
               posted = requests st\<rparr>)"
  using nonempty
  by (simp add: processNewLifelogs_def cycle_body_def load fetch Let_def
        saveLastSeenTime_def split: option.split)

text \<open>
  What a cycle does with a batch that is not empty, once it has loaded the watermark:
  every lifelog of the batch is sent to the destination, in order, whatever happened to
  the lifelogs before it. If at least one page was written, the cycle saves the greatest,
  in the order in which the code compares strings, of the loaded watermark and the
  timestamps of the lifelogs whose page was written. If no page was written, the state
  file is left as the load left it and the last thing the console receives is the
  warning.
\<close>

lemma cycle_on_batch:
  assumes load: "loadLastSeenTime (clock w) (init_write w) (state_file s) = (Inr lastSeen, f)"
      and fetch: "fetchStarredLifelogs (flags s) (source w lastSeen) = (Inr lifelogs, g, lg)"
      and nonempty: "lifelogs \<noteq> []"
  shows "map fst (batch w lifelogs) = lifelogs
    \<and> posted (snd (processNewLifelogs sch w s))
        = posted s @ map (\<lambda>x. pageData (snd x) (fst x) sch) (batch w lifelogs)
    \<and> (filter (written sch) (batch w lifelogs) \<noteq> [] \<and> save_write w = None \<longrightarrow>
         state_file (snd (processNewLifelogs sch w s))
           = Holds \<lparr>lastSeenTime =
               Some (Max (set (lastSeen # stamps (filter (written sch) (batch w lifelogs)))))\<rparr>)
    \<and> (filter (written sch) (batch w lifelogs) \<noteq> [] \<and> save_write w \<noteq> None \<longrightarrow>
         state_file (snd (processNewLifelogs sch w s)) = f)
    \<and> (filter (written sch) (batch w lifelogs) = [] \<longrightarrow>
         state_file (snd (processNewLifelogs sch w s)) = f
         \<and> last (console (snd (processNewLifelogs sch w s)))
             = WarnNoneProcessed (length lifelogs))"
proof -
  let ?st = "process_lifelogs sch (batch w lifelogs) (loop_start s lastSeen lg (length lifelogs))"
  have cnt: "processedCount ?st = length (filter (written sch) (batch w lifelogs))"
    by (simp add: process_lifelogs_count loop_start_def)
  have mx: "maxTimestamp ?st
      = Max (set (lastSeen # stamps (filter (written sch) (batch w lifelogs))))"
    by (simp only: process_lifelogs_max) (simp add: loop_start_def)
  have rq: "requests ?st
      = posted s @ map (\<lambda>x. pageData (snd x) (fst x) sch) (batch w lifelogs)"
    by (simp add: process_lifelogs_requests loop_start_def)
  note res = cycle_nonempty [OF load fetch nonempty, of sch]
  have p1: "map fst (batch w lifelogs) = lifelogs"
    by (rule batch_fst)
  have p2: "posted (snd (processNewLifelogs sch w s))
        = posted s @ map (\<lambda>x. pageData (snd x) (fst x) sch) (batch w lifelogs)"
    by (simp add: res Let_def rq split: option.split)
  have p3: "filter (written sch) (batch w lifelogs) \<noteq> [] \<and> save_write w = None \<longrightarrow>
         state_file (snd (processNewLifelogs sch w s))
           = Holds \<lparr>lastSeenTime =
               Some (Max (set (lastSeen # stamps (filter (written sch) (batch w lifelogs)))))\<rparr>"
    by (simp add: res Let_def cnt mx)
  have p4: "filter (written sch) (batch w lifelogs) \<noteq> [] \<and> save_write w \<noteq> None \<longrightarrow>
         state_file (snd (processNewLifelogs sch w s)) = f"
    by (auto simp add: res Let_def cnt)
  have p5: "filter (written sch) (batch w lifelogs) = [] \<longrightarrow>
         state_file (snd (processNewLifelogs sch w s)) = f
         \<and> last (console (snd (processNewLifelogs sch w s)))
             = WarnNoneProcessed (length lifelogs)"
    by (simp add: res Let_def cnt)
  from p1 p2 p3 p4 p5 show ?thesis by (intro conjI)
qed

lemma example_load: "loadLastSeenTime (clock world0) (init_write world0) (state_file system0)
    = (Inr ''2025-01-01T00:00:00Z'', Holds \<lparr>lastSeenTime = Some ''2025-01-01T00:00:00Z''\<rparr>)"
  by (simp add: loadLastSeenTime_def world0_def system0_def truthy_def)

lemma example_fetch: "fetchStarredLifelogs (flags system0) (source world0 ''2025-01-01T00:00:00Z'')
    = (Inr [lifelog_a, lifelog_b], \<lparr>responseLogged = True, warningShown = False\<rparr>,
       [LogResponseStructure])"
  by (simp add: fetchStarredLifelogs_def handleResponse_def nested_lifelogs_def array_prop_def
        world0_def system0_def ok_def)

lemma example_batch: "batch world0 [lifelog_a, lifelog_b] = [(lifelog_a, env_ok), (lifelog_b, env_fail)]"
  by (simp add: batch_def world0_def upt_rec)

lemma example_wins: "filter (written schema0) [(lifelog_a, env_ok), (lifelog_b, env_fail)] = [(lifelog_a, env_ok)]"
  by (simp add: written_def createNotionPage_def env_ok_def env_fail_def ok_def)

lemma example_stamps: "stamps [(lifelog_a, env_ok)] = [''2025-01-01T00:00:05Z'']"
  by (simp add: stamps_def lifelogTimestamp_def js_or_def truthy_def lifelog_a_def)





section \<open>The saved watermark and the instants\<close>

lemma instant_05: "instant ''2025-01-01T00:00:05Z'' = 20250101000005000"
  by (simp add: instant_def millis_def is_digit_def digit_value_def)

lemma instant_05_500: "instant ''2025-01-01T00:00:05.500Z'' = 20250101000005500"
  by (simp add: instant_def millis_def is_digit_def digit_value_def)

lemma instant_05_999: "instant ''2025-01-01T00:00:05.999Z'' = 20250101000005999"
  by (simp add: instant_def millis_def is_digit_def digit_value_def)

lemma written_ok: "written sch (l, env_ok)"
  by (simp add: written_def createNotionPage_def env_ok_def ok_def)

lemma example_load_05:
  "loadLastSeenTime (clock world_late) (init_write world_late) (state_file system_05)
     = (Inr ''2025-01-01T00:00:05Z'', Holds \<lparr>lastSeenTime = Some ''2025-01-01T00:00:05Z''\<rparr>)"
  by (simp add: loadLastSeenTime_def system_05_def truthy_def)

lemma example_fetch_late:
  "fetchStarredLifelogs (flags system_05) (source world_late ''2025-01-01T00:00:05Z'')
     = (Inr [lifelog_late], \<lparr>responseLogged = True, warningShown = False\<rparr>,
        [LogResponseStructure])"
  by (simp add: fetchStarredLifelogs_def handleResponse_def world_late_def system_05_def ok_def)

lemma example_batch_late: "batch world_late [lifelog_late] = [(lifelog_late, env_ok)]"
  by (simp add: batch_def world_late_def)

lemma example_stamps_late: "stamps [(lifelog_late, env_ok)] = [''2025-01-01T00:00:05.500Z'']"
  by (simp add: stamps_def lifelogTimestamp_def js_or_def truthy_def lifelog_late_def)

lemma example_state_late:
  "state_file (snd (processNewLifelogs schema0 world_late system_05))
     = Holds \<lparr>lastSeenTime = Some ''2025-01-01T00:00:05Z''\<rparr>"
proof -
  have ne: "[lifelog_late] \<noteq> []" by simp
  have sv: "save_write world_late = None" by (simp add: world_late_def)
  have wins: "filter (written schema0) (batch world_late [lifelog_late]) = [(lifelog_late, env_ok)]"
    by (simp add: example_batch_late written_ok)
  note t = cycle_on_batch [OF example_load_05 example_fetch_late ne, of schema0]
  show ?thesis
    using conjunct1 [OF conjunct2 [OF conjunct2 [OF t]]]
    by (simp add: wins sv example_stamps_late max_def)
qed

text \<open>
  Claim C1. In a cycle whose batch is not empty, the failure of one lifelog does not stop
  the others, and when at least one page is written the watermark that the cycle saves is
  the latest of the loaded watermark and of the timestamps of the lifelogs whose page was
  written. The code breaks the second part: it keeps the greatest string, which is not
  the latest instant when the timestamps are not written with the same precision. Here
  the watermark \<^verbatim>\<open>2025-01-01T00:00:05Z\<close> is loaded, the batch is one lifelog updated
  at \<^verbatim>\<open>2025-01-01T00:00:05.500Z\<close>, its page is written and the save succeeds; the
  state file then holds \<^verbatim>\<open>2025-01-01T00:00:05Z\<close>, half a second before the timestamp
  of the lifelog that was written.
\<close>

theorem watermark_misses_later_timestamp:
  "loadLastSeenTime (clock world_late) (init_write world_late) (state_file system_05)
     = (Inr ''2025-01-01T00:00:05Z'', Holds \<lparr>lastSeenTime = Some ''2025-01-01T00:00:05Z''\<rparr>)
   \<and> fst (fetchStarredLifelogs (flags system_05) (source world_late ''2025-01-01T00:00:05Z''))
       = Inr [lifelog_late]
   \<and> written schema0 (lifelog_late, services world_late 0)
   \<and> updatedAt lifelog_late = Some ''2025-01-01T00:00:05.500Z''
   \<and> save_write world_late = None
   \<and> state_file (snd (processNewLifelogs schema0 world_late system_05))
       = Holds \<lparr>lastSeenTime = Some ''2025-01-01T00:00:05Z''\<rparr>
   \<and> instant ''2025-01-01T00:00:05Z'' < instant ''2025-01-01T00:00:05.500Z''"
proof -
  have f: "fst (fetchStarredLifelogs (flags system_05) (source world_late ''2025-01-01T00:00:05Z''))
       = Inr [lifelog_late]"
    by (simp add: example_fetch_late)
  have w: "written schema0 (lifelog_late, services world_late 0)"
    by (simp add: world_late_def written_ok)
  have u: "updatedAt lifelog_late = Some ''2025-01-01T00:00:05.500Z''"
    by (simp add: lifelog_late_def)
  have sv: "save_write world_late = None" by (simp add: world_late_def)
  have i: "instant ''2025-01-01T00:00:05Z'' < instant ''2025-01-01T00:00:05.500Z''"
    by (simp add: instant_05 instant_05_500)
  from example_load_05 f w u sv example_state_late i show ?thesis by (intro conjI)
qed

section \<open>The watermark over cycles\<close>

lemma process_lifelogs_max_ge:
  "maxTimestamp st \<le> maxTimestamp (process_lifelogs sch xs st)"
  by (simp only: process_lifelogs_max) simp

lemma persisted_load:
  "persisted f0 = Some t \<Longrightarrow> loadLastSeenTime c wr f0 = (Inr t, f0)"
  by (cases f0) (auto simp add: persisted_def loadLastSeenTime_def split: if_splits)

lemma persisted_nonempty:
  "persisted f0 = Some t \<Longrightarrow> t \<noteq> []"
  by (cases f0) (auto simp add: persisted_def truthy_def split: if_splits)

lemma load_persisted:
  "loadLastSeenTime c wr f0 = (Inr t, f) \<Longrightarrow> persisted f = Some t' \<Longrightarrow> t' = t"
  by (cases f0)
     (auto simp add: persisted_def loadLastSeenTime_def saveLastSeenTime_def truthy_def
        split: if_splits option.splits)

lemma cycle_state_file_loaded:
  assumes load: "loadLastSeenTime (clock w) (init_write w) (state_file s) = (Inr t, f)"
  shows "state_file (snd (processNewLifelogs sch w s)) = f
       \<or> (\<exists>m. t \<le> m \<and> state_file (snd (processNewLifelogs sch w s))
                              = Holds \<lparr>lastSeenTime = Some m\<rparr>)"
proof -
  obtain r g lg where fetch: "fetchStarredLifelogs (flags s) (source w t) = (r, g, lg)"
    by (cases "fetchStarredLifelogs (flags s) (source w t)")
  show ?thesis
  proof (cases r)
    case (Inl e)
    then show ?thesis
      by (simp add: processNewLifelogs_def cycle_body_def load fetch)
  next
    case (Inr ls)
    show ?thesis
    proof (cases "ls = []")
      case True
      then show ?thesis
        by (simp add: processNewLifelogs_def cycle_body_def load fetch Inr)
    next
      case False
      let ?st = "process_lifelogs sch (batch w ls) (loop_start s t lg (length ls))"
      have ge: "t \<le> maxTimestamp ?st"
        using process_lifelogs_max_ge [of "loop_start s t lg (length ls)" sch "batch w ls"]
        by (simp add: loop_start_def)
      from fetch Inr have fetch': "fetchStarredLifelogs (flags s) (source w t) = (Inr ls, g, lg)"
        by simp
      note res = cycle_nonempty [OF load fetch' False, of sch]
      show ?thesis
      proof (cases "processedCount ?st > 0 \<and> save_write w = None")
        case True
        then have "state_file (snd (processNewLifelogs sch w s))
                     = Holds \<lparr>lastSeenTime = Some (maxTimestamp ?st)\<rparr>"
          by (simp add: res Let_def)
        with ge show ?thesis by auto
      next
        case False
        then have "state_file (snd (processNewLifelogs sch w s)) = f"
          by (auto simp add: res Let_def)
        then show ?thesis ..
      qed
    qed
  qed
qed

lemma cycle_keeps_watermark:
  assumes p: "persisted (state_file s) = Some t"
  shows "\<exists>t'. persisted (state_file (snd (processNewLifelogs sch w s))) = Some t' \<and> t \<le> t'"
proof -
  note load = persisted_load [OF p, of "clock w" "init_write w"]
  from cycle_state_file_loaded [OF load, of sch]
  show ?thesis
  proof
    assume "state_file (snd (processNewLifelogs sch w s)) = state_file s"
    with p show ?thesis by simp
  next
    assume "\<exists>m. t \<le> m \<and> state_file (snd (processNewLifelogs sch w s))
                              = Holds \<lparr>lastSeenTime = Some m\<rparr>"
    then obtain m where m: "t \<le> m"
      and h: "state_file (snd (processNewLifelogs sch w s)) = Holds \<lparr>lastSeenTime = Some m\<rparr>"
      by auto
    from persisted_nonempty [OF p] m have "m \<noteq> []"
      by auto
    then have "persisted (Holds \<lparr>lastSeenTime = Some m\<rparr>) = Some m"
      by (simp add: persisted_def truthy_def)
    with m h show ?thesis by simp
  qed
qed

lemma run_cycles_keeps_watermark:
  "persisted (state_file s) = Some t \<Longrightarrow>
     \<exists>t'. persisted (state_file (run_cycles sch ws s)) = Some t' \<and> t \<le> t'"
proof (induction ws arbitrary: s t)
  case Nil
  then show ?case by simp
next
  case (Cons w ws)
  from cycle_keeps_watermark [OF Cons.prems, of sch w]
  obtain t1 where t1: "persisted (state_file (snd (processNewLifelogs sch w s))) = Some t1"
    and le1: "t \<le> t1" by auto
  from Cons.IH [OF t1] obtain t2
    where "persisted (state_file (run_cycles sch ws (snd (processNewLifelogs sch w s)))) = Some t2"
      and "t1 \<le> t2" by auto
  with le1 show ?case by auto
qed

text \<open>
  In the order in which the code compares strings, the watermark never decreases. In one
  cycle, whatever the surroundings answer: if the cycle has loaded the watermark \<open>t\<close>
  and the state file persists a watermark afterwards, that watermark is at least \<open>t\<close>.
  Over any run of cycles, one after the other: a watermark that the state file persists
  is still persisted afterwards, with a value that is at least the one before.
\<close>

lemma watermark_grows_in_string_order:
  "(loadLastSeenTime (clock w) (init_write w) (state_file s) = (Inr t, f)
      \<and> persisted (state_file (snd (processNewLifelogs sch w s))) = Some t'
     \<longrightarrow> t \<le> t')
   \<and> (persisted (state_file s) = Some t0 \<longrightarrow>
        (\<exists>t1. persisted (state_file (run_cycles sch ws s)) = Some t1 \<and> t0 \<le> t1))"
proof (intro conjI impI)
  assume a: "loadLastSeenTime (clock w) (init_write w) (state_file s) = (Inr t, f)
      \<and> persisted (state_file (snd (processNewLifelogs sch w s))) = Some t'"
  then have load: "loadLastSeenTime (clock w) (init_write w) (state_file s) = (Inr t, f)"
    and p: "persisted (state_file (snd (processNewLifelogs sch w s))) = Some t'"
    by simp_all
  from cycle_state_file_loaded [OF load, of sch]
  show "t \<le> t'"
  proof
    assume "state_file (snd (processNewLifelogs sch w s)) = f"
    with p have "persisted f = Some t'" by simp
    from load_persisted [OF load this] show ?thesis by simp
  next
    assume "\<exists>m. t \<le> m \<and> state_file (snd (processNewLifelogs sch w s))
                              = Holds \<lparr>lastSeenTime = Some m\<rparr>"
    then obtain m where m: "t \<le> m"
      and h: "state_file (snd (processNewLifelogs sch w s)) = Holds \<lparr>lastSeenTime = Some m\<rparr>"
      by auto
    from p h have "t' = m"
      by (simp add: persisted_def split: if_splits)
    with m show ?thesis by simp
  qed
next
  assume "persisted (state_file s) = Some t0"
  then show "\<exists>t1. persisted (state_file (run_cycles sch ws s)) = Some t1 \<and> t0 \<le> t1"
    by (rule run_cycles_keeps_watermark)
qed

lemma example_load_999:
  "loadLastSeenTime (clock world_short) (init_write world_short) (state_file system_999)
     = (Inr ''2025-01-01T00:00:05.999Z'',
        Holds \<lparr>lastSeenTime = Some ''2025-01-01T00:00:05.999Z''\<rparr>)"
  by (simp add: loadLastSeenTime_def system_999_def truthy_def)

lemma example_fetch_short:
  "fetchStarredLifelogs (flags system_999) (source world_short ''2025-01-01T00:00:05.999Z'')
     = (Inr [lifelog_short], \<lparr>responseLogged = True, warningShown = False\<rparr>,
        [LogResponseStructure])"
  by (simp add: fetchStarredLifelogs_def handleResponse_def world_short_def system_999_def ok_def)

lemma example_batch_short: "batch world_short [lifelog_short] = [(lifelog_short, env_ok)]"
  by (simp add: batch_def world_short_def)

lemma example_stamps_short: "stamps [(lifelog_short, env_ok)] = [''2025-01-01T00:00:05Z'']"
  by (simp add: stamps_def lifelogTimestamp_def js_or_def truthy_def lifelog_short_def)

lemma example_state_short:
  "state_file (snd (processNewLifelogs schema0 world_short system_999))
     = Holds \<lparr>lastSeenTime = Some ''2025-01-01T00:00:05Z''\<rparr>"
proof -
  have ne: "[lifelog_short] \<noteq> []" by simp
  have sv: "save_write world_short = None" by (simp add: world_short_def)
  have wins: "filter (written schema0) (batch world_short [lifelog_short])
                = [(lifelog_short, env_ok)]"
    by (simp add: example_batch_short written_ok)
  note t = cycle_on_batch
    [OF example_load_999 example_fetch_short ne, of schema0]
  show ?thesis
    using conjunct1 [OF conjunct2 [OF conjunct2 [OF t]]]
    by (simp add: wins sv example_stamps_short max_def)
qed

text \<open>
  Claim C2. Over any cycles and any inputs the persisted watermark never decreases: after
  a cycle it is at least the watermark that the cycle loaded. The code breaks this for
  instants, since it advances the watermark to a greater string: here the state file
  persists \<^verbatim>\<open>2025-01-01T00:00:05.999Z\<close>, the cycle loads it, the batch is one
  lifelog updated at \<^verbatim>\<open>2025-01-01T00:00:05Z\<close> and its page is written; after the
  cycle the state file persists \<^verbatim>\<open>2025-01-01T00:00:05Z\<close>, which is 999 ms before
  the watermark that was loaded.
\<close>

theorem watermark_moves_back_in_time:
  "persisted (state_file system_999) = Some ''2025-01-01T00:00:05.999Z''
   \<and> loadLastSeenTime (clock world_short) (init_write world_short) (state_file system_999)
       = (Inr ''2025-01-01T00:00:05.999Z'',
          Holds \<lparr>lastSeenTime = Some ''2025-01-01T00:00:05.999Z''\<rparr>)
   \<and> fst (fetchStarredLifelogs (flags system_999)
            (source world_short ''2025-01-01T00:00:05.999Z'')) = Inr [lifelog_short]
   \<and> updatedAt lifelog_short = Some ''2025-01-01T00:00:05Z''
   \<and> written schema0 (lifelog_short, services world_short 0)
   \<and> persisted (state_file (snd (processNewLifelogs schema0 world_short system_999)))
       = Some ''2025-01-01T00:00:05Z''
   \<and> persisted (state_file (run_cycles schema0 [world_short] system_999))
       = Some ''2025-01-01T00:00:05Z''
   \<and> instant ''2025-01-01T00:00:05Z'' < instant ''2025-01-01T00:00:05.999Z''"
proof -
  have p0: "persisted (state_file system_999) = Some ''2025-01-01T00:00:05.999Z''"
    by (simp add: persisted_def system_999_def truthy_def)
  have f: "fst (fetchStarredLifelogs (flags system_999)
            (source world_short ''2025-01-01T00:00:05.999Z'')) = Inr [lifelog_short]"
    by (simp add: example_fetch_short)
  have u: "updatedAt lifelog_short = Some ''2025-01-01T00:00:05Z''"
    by (simp add: lifelog_short_def)
  have w: "written schema0 (lifelog_short, services world_short 0)"
    by (simp add: world_short_def written_ok)
  have p1: "persisted (state_file (snd (processNewLifelogs schema0 world_short system_999)))
       = Some ''2025-01-01T00:00:05Z''"
    by (simp add: example_state_short persisted_def truthy_def)
  have p2: "persisted (state_file (run_cycles schema0 [world_short] system_999))
       = Some ''2025-01-01T00:00:05Z''"
    using p1 by simp
  have i: "instant ''2025-01-01T00:00:05Z'' < instant ''2025-01-01T00:00:05.999Z''"
    by (simp add: instant_05 instant_05_999)
  from p0 example_load_999 f u w p1 p2 i show ?thesis by (intro conjI)
qed

text \<open>
  Claim C8. When the watermark has been loaded and the upstream fetch fails (the request
  is rejected, the status is not a success, or the body does not parse), the cycle ends
  normally: no error leaves it, nothing is sent to the destination, the console receives
  the failure, and the state file is left as the load left it, which is as it was before
  the cycle when it persisted a watermark. A load from the resulting file, at any later
  time, returns the same watermark again whenever the file persists it.
\<close>

theorem fetch_failure_keeps_watermark:
  assumes load: "loadLastSeenTime (clock w) (init_write w) (state_file s) = (Inr t, f)"
      and fail: "source w t = Rejected
                 \<or> (\<exists>status body. source w t = Response status body
                                     \<and> (\<not> ok status \<or> body = None))"
  shows "fst (processNewLifelogs sch w s) = Inr ()
       \<and> state_file (snd (processNewLifelogs sch w s)) = f
       \<and> (persisted (state_file s) \<noteq> None \<longrightarrow> f = state_file s)
       \<and> posted (snd (processNewLifelogs sch w s)) = posted s
       \<and> console (snd (processNewLifelogs sch w s))
           = console s @ [LogPolling t, ErrFetching, ErrFetching]
       \<and> (persisted f = Some t \<longrightarrow>
            loadLastSeenTime now' wr' (state_file (snd (processNewLifelogs sch w s)))
              = (Inr t, f))"
proof -
  from fail have fetch: "\<exists>e. fetchStarredLifelogs (flags s) (source w t)
                              = (Inl e, flags s, [ErrFetching])"
    by (auto simp add: fetchStarredLifelogs_def)
  then obtain e where fetch: "fetchStarredLifelogs (flags s) (source w t)
                              = (Inl e, flags s, [ErrFetching])" ..
  have res: "processNewLifelogs sch w s
      = (Inr (), s\<lparr>state_file := f, flags := flags s,
                   console := console s @ [LogPolling t] @ [ErrFetching] @ [ErrFetching]\<rparr>)"
    by (simp add: processNewLifelogs_def cycle_body_def load fetch)
  have p1: "fst (processNewLifelogs sch w s) = Inr ()" by (simp add: res)
  have p2: "state_file (snd (processNewLifelogs sch w s)) = f" by (simp add: res)
  have p3: "persisted (state_file s) \<noteq> None \<longrightarrow> f = state_file s"
  proof
    assume "persisted (state_file s) \<noteq> None"
    then obtain t0 where "persisted (state_file s) = Some t0" by auto
    from persisted_load [OF this, of "clock w" "init_write w"] load
    show "f = state_file s" by simp
  qed
  have p4: "posted (snd (processNewLifelogs sch w s)) = posted s" by (simp add: res)
  have p5: "console (snd (processNewLifelogs sch w s))
           = console s @ [LogPolling t, ErrFetching, ErrFetching]" by (simp add: res)
  have p6: "persisted f = Some t \<longrightarrow>
            loadLastSeenTime now' wr' (state_file (snd (processNewLifelogs sch w s)))
              = (Inr t, f)"
    by (simp add: p2 persisted_load)
  from p1 p2 p3 p4 p5 p6 show ?thesis by (intro conjI)
qed

lemma example_load_down:
  "loadLastSeenTime (clock world_down) (init_write world_down) (state_file system0)
    = (Inr ''2025-01-01T00:00:00Z'', Holds \<lparr>lastSeenTime = Some ''2025-01-01T00:00:00Z''\<rparr>)"
  by (simp add: loadLastSeenTime_def world_down_def system0_def truthy_def)

theorem fetch_failure_keeps_watermark_witness:
  "loadLastSeenTime (clock world_down) (init_write world_down) (state_file system0)
     = (Inr ''2025-01-01T00:00:00Z'', Holds \<lparr>lastSeenTime = Some ''2025-01-01T00:00:00Z''\<rparr>)
   \<and> source world_down ''2025-01-01T00:00:00Z'' = Response 503 None
   \<and> \<not> ok 503
   \<and> fst (processNewLifelogs schema0 world_down system0) = Inr ()
   \<and> state_file (snd (processNewLifelogs schema0 world_down system0))
       = Holds \<lparr>lastSeenTime = Some ''2025-01-01T00:00:00Z''\<rparr>
   \<and> console (snd (processNewLifelogs schema0 world_down system0))
       = [LogPolling ''2025-01-01T00:00:00Z'', ErrFetching, ErrFetching]
   \<and> loadLastSeenTime ''2025-01-01T00:00:31Z'' None
        (state_file (snd (processNewLifelogs schema0 world_down system0)))
       = (Inr ''2025-01-01T00:00:00Z'', Holds \<lparr>lastSeenTime = Some ''2025-01-01T00:00:00Z''\<rparr>)"
proof -
  have src: "source world_down ''2025-01-01T00:00:00Z'' = Response 503 None"
    by (simp add: world_down_def)
  have nok: "\<not> ok 503" by (simp add: ok_def)
  have fail: "source world_down ''2025-01-01T00:00:00Z'' = Rejected
                 \<or> (\<exists>status body. source world_down ''2025-01-01T00:00:00Z'' = Response status body
                                     \<and> (\<not> ok status \<or> body = None))"
    using src by simp
  have pf: "persisted (Holds \<lparr>lastSeenTime = Some ''2025-01-01T00:00:00Z''\<rparr>)
              = Some ''2025-01-01T00:00:00Z''"
    by (simp add: persisted_def truthy_def)
  note t = fetch_failure_keeps_watermark
    [OF example_load_down fail, of schema0 "''2025-01-01T00:00:31Z''" None]
  note c1 = conjunct1 [OF t]
  note r1 = conjunct2 [OF t]
  note c2 = conjunct1 [OF r1]
  note r4 = conjunct2 [OF conjunct2 [OF conjunct2 [OF r1]]]
  have c3: "console (snd (processNewLifelogs schema0 world_down system0))
       = [LogPolling ''2025-01-01T00:00:00Z'', ErrFetching, ErrFetching]"
    using conjunct1 [OF r4] by (simp add: system0_def)
  note c4 = mp [OF conjunct2 [OF r4] pf]
  from example_load_down src nok c1 c2 c3 c4 show ?thesis by (intro conjI)
qed

section \<open>Properties of the schema cache and of the start\<close>

text \<open>
  The paths of the schema getter, on any cache file. If the file is read and parsed and
  its timestamp is less than 3,600,000 ms before the current time, the getter returns
  what the file has as schema, makes no live fetch and leaves the file as it is. If the
  file cannot be read, does not parse, has no timestamp, or is 3,600,000 ms old or older,
  the getter makes one live fetch; when the fetch and the write succeed, the file holds
  the fetched schema with the time of the write, and the getter returns that schema. The
  getter throws only when the live fetch fails (rejected, not a success, a body that does
  not parse or is \<^verbatim>\<open>null\<close>) or the write of the cache fails.
\<close>

lemma schema_cache_getter:
  "(f = Holds c \<and> timestamp c = Some ts \<and> check_now env - ts < 3600000 \<longrightarrow>
      fetchNotionDatabaseSchema env f = (Inr (schema c), f, [LogUsingCached], 0))
   \<and> (f = ReadFails code \<or> f = Malformed \<or> f = NullValue
        \<or> (f = Holds c \<and> (timestamp c = None
                              \<or> (timestamp c = Some ts \<and> 3600000 \<le> check_now env - ts)))
       \<longrightarrow>
        snd (snd (snd (fetchNotionDatabaseSchema env f))) = 1
        \<and> (live env = Response status (Some (Database props)) \<and> ok status
             \<and> cache_write env = None
             \<longrightarrow>
             fetchNotionDatabaseSchema env f
               = (Inr (Some (case props of Some p \<Rightarrow> p | None \<Rightarrow> [])),
                  Holds \<lparr>schema = Some (case props of Some p \<Rightarrow> p | None \<Rightarrow> []),
                         timestamp = Some (write_now env)\<rparr>,
                  [LogFetchedSchema], 1)))
   \<and> (fst (fetchNotionDatabaseSchema env f) = Inl e \<longrightarrow>
        live env = Rejected
        \<or> (\<exists>st b. live env = Response st b
                     \<and> (\<not> ok st \<or> b = None \<or> b = Some NullBody))
        \<or> cache_write env = Some e)"
proof (intro conjI impI)
  assume "f = Holds c \<and> timestamp c = Some ts \<and> check_now env - ts < 3600000"
  then show "fetchNotionDatabaseSchema env f = (Inr (schema c), f, [LogUsingCached], 0)"
    by (simp add: fetchNotionDatabaseSchema_def fresh_cache_def)
next
  assume a: "f = ReadFails code \<or> f = Malformed \<or> f = NullValue
        \<or> (f = Holds c \<and> (timestamp c = None
                              \<or> (timestamp c = Some ts \<and> 3600000 \<le> check_now env - ts)))"
  then have stale: "fresh_cache (check_now env) f = None"
    by (auto simp add: fresh_cache_def)
  show "snd (snd (snd (fetchNotionDatabaseSchema env f))) = 1"
    by (simp add: fetchNotionDatabaseSchema_def stale Let_def
          split: response.split option.split database.split)
  assume "live env = Response status (Some (Database props)) \<and> ok status
             \<and> cache_write env = None"
  then show "fetchNotionDatabaseSchema env f
               = (Inr (Some (case props of Some p \<Rightarrow> p | None \<Rightarrow> [])),
                  Holds \<lparr>schema = Some (case props of Some p \<Rightarrow> p | None \<Rightarrow> []),
                         timestamp = Some (write_now env)\<rparr>,
                  [LogFetchedSchema], 1)"
    by (simp add: fetchNotionDatabaseSchema_def stale Let_def)
next
  assume "fst (fetchNotionDatabaseSchema env f) = Inl e"
  then show "live env = Rejected
        \<or> (\<exists>st b. live env = Response st b
                     \<and> (\<not> ok st \<or> b = None \<or> b = Some NullBody))
        \<or> cache_write env = Some e"
    by (auto simp add: fetchNotionDatabaseSchema_def Let_def
          split: response.splits option.splits if_splits database.splits)
qed

lemma example_getter_no_schema:
  "fetchNotionDatabaseSchema env_boot cache_no_schema
     = (Inr None, cache_no_schema, [LogUsingCached], 0)"
  by (simp add: fetchNotionDatabaseSchema_def fresh_cache_def cache_no_schema_def env_boot_def)

lemma example_getter_absent:
  "fetchNotionDatabaseSchema env_boot (ReadFails ''ENOENT'')
     = (Inr (Some schema0), Holds \<lparr>schema = Some schema0, timestamp = Some 2000500\<rparr>,
        [LogFetchedSchema], 1)"
  by (simp add: fetchNotionDatabaseSchema_def fresh_cache_def env_boot_def ok_def)

lemma poll_exit_code: "exit_code (poll sch ws r) = exit_code r"
  by (induction ws arbitrary: r) simp_all

text \<open>
  Claim C3. The getter returns a cached schema that is less than 3,600,000 ms old without
  a live fetch, makes a live fetch and persists its result when the cache is absent,
  unreadable, unparsable or older, and a corrupt or absent cache is never fatal by
  itself. The code breaks the last part: a cache file that parses and has a fresh
  timestamp but no schema is not taken for invalid. Here the file is one thousand
  seconds old and has no schema, and the destination would answer with the schema: the
  getter returns \<^verbatim>\<open>undefined\<close> without a live fetch, and the service exits with
  code 1 before any cycle, where it keeps running when the cache file does not exist.
\<close>

theorem fresh_cache_without_schema_is_fatal:
  "cache_no_schema = Holds \<lparr>schema = None, timestamp = Some 1000000\<rparr>
   \<and> check_now env_boot - 1000000 < 3600000
   \<and> live env_boot = Response 200 (Some (Database (Some schema0)))
   \<and> fetchNotionDatabaseSchema env_boot cache_no_schema
       = (Inr None, cache_no_schema, [LogUsingCached], 0)
   \<and> exit_code (startPolling env_boot cache_no_schema [world0] system0) = Some 1
   \<and> sys (startPolling env_boot cache_no_schema [world0] system0)
       = system0\<lparr>console := [LogStarting, LogUsingCached, ErrStartFailed]\<rparr>
   \<and> exit_code (startPolling env_boot (ReadFails ''ENOENT'') [world0] system0) = None"
proof -
  have c: "cache_no_schema = Holds \<lparr>schema = None, timestamp = Some 1000000\<rparr>"
    by (simp add: cache_no_schema_def)
  have a: "check_now env_boot - 1000000 < 3600000" by (simp add: env_boot_def)
  have l: "live env_boot = Response 200 (Some (Database (Some schema0)))"
    by (simp add: env_boot_def)
  have e: "exit_code (startPolling env_boot cache_no_schema [world0] system0) = Some 1"
    by (simp add: startPolling_def example_getter_no_schema)
  have s: "sys (startPolling env_boot cache_no_schema [world0] system0)
       = system0\<lparr>console := [LogStarting, LogUsingCached, ErrStartFailed]\<rparr>"
    by (simp add: startPolling_def example_getter_no_schema system0_def)
  have r: "exit_code (startPolling env_boot (ReadFails ''ENOENT'') [world0] system0) = None"
    by (simp add: startPolling_def example_getter_absent poll_exit_code)
  from c a l example_getter_no_schema e s r show ?thesis by (intro conjI)
qed

lemma createNotionPage_log_quiet:
  "filter is_getter_msg (snd (snd (createNotionPage env l sch))) = []"
  by (simp add: createNotionPage_def Let_def is_getter_msg_def
        split: response.split option.split sum.split)

lemma process_one_out:
  "\<exists>ms. out (process_one sch st x) = out st @ ms \<and> filter is_getter_msg ms = []"
proof -
  obtain l env where x: "x = (l, env)" by (cases x)
  obtain r rq lg where c: "createNotionPage env l sch = (r, rq, lg)"
    by (cases "createNotionPage env l sch")
  from createNotionPage_log_quiet [of env l sch] c have q: "filter is_getter_msg lg = []"
    by simp
  show ?thesis
  proof (cases r)
    case (Inl e)
    have "out (process_one sch st x)
            = out st @ ([LogProcessing (lifelogTitle l) (lifelogTime l)] @ lg
                          @ [ErrRecord (or_else (id' l) ''unknown'')])"
      by (simp add: process_one_def x c Inl)
    moreover have "filter is_getter_msg ([LogProcessing (lifelogTitle l) (lifelogTime l)] @ lg
                          @ [ErrRecord (or_else (id' l) ''unknown'')]) = []"
      by (simp add: q is_getter_msg_def)
    ultimately show ?thesis by (intro exI conjI)
  next
    case (Inr u)
    have "out (process_one sch st x)
            = out st @ ([LogProcessing (lifelogTitle l) (lifelogTime l)] @ lg
                          @ [LogCreated (lifelogTitle l)])"
      by (simp add: process_one_def x c Inr)
    moreover have "filter is_getter_msg ([LogProcessing (lifelogTitle l) (lifelogTime l)] @ lg
                          @ [LogCreated (lifelogTitle l)]) = []"
      by (simp add: q is_getter_msg_def)
    ultimately show ?thesis by (intro exI conjI)
  qed
qed

lemma process_lifelogs_out:
  "\<exists>ms. out (process_lifelogs sch xs st) = out st @ ms \<and> filter is_getter_msg ms = []"
proof (induction xs arbitrary: st)
  case Nil
  have "out (process_lifelogs sch [] st) = out st @ [] \<and> filter is_getter_msg [] = []"
    by simp
  then show ?case by (rule exI)
next
  case (Cons x xs)
  from process_one_out [of sch st x] obtain m1
    where m1: "out (process_one sch st x) = out st @ m1" and q1: "filter is_getter_msg m1 = []"
    by auto
  from Cons.IH [of "process_one sch st x"] obtain m2
    where m2: "out (process_lifelogs sch xs (process_one sch st x))
                 = out (process_one sch st x) @ m2"
      and q2: "filter is_getter_msg m2 = []"
    by auto
  have "out (process_lifelogs sch (x # xs) st) = out st @ (m1 @ m2)
          \<and> filter is_getter_msg (m1 @ m2) = []"
    by (simp add: m1 m2 q1 q2)
  then show ?case by (rule exI)
qed

lemma handleResponse_log_quiet:
  "filter is_getter_msg (snd (snd (handleResponse g data))) = []"
  by (simp add: handleResponse_def is_getter_msg_def split: json.split option.split)

lemma fetchStarredLifelogs_log_quiet:
  "filter is_getter_msg (snd (snd (fetchStarredLifelogs g resp))) = []"
proof (cases resp)
  case Rejected
  then show ?thesis by (simp add: fetchStarredLifelogs_def is_getter_msg_def)
next
  case (Response status body)
  show ?thesis
  proof (cases body)
    case None
    with Response show ?thesis by (simp add: fetchStarredLifelogs_def is_getter_msg_def)
  next
    case (Some data)
    let ?g1 = "if \<not> responseLogged g then g\<lparr>responseLogged := True\<rparr> else g"
    obtain ys g2 lg2 where h: "handleResponse ?g1 data = (ys, g2, lg2)"
      by (cases "handleResponse ?g1 data")
    from handleResponse_log_quiet [of ?g1 data] h have "filter is_getter_msg lg2 = []"
      by simp
    with Response Some h show ?thesis
      by (simp add: fetchStarredLifelogs_def Let_def is_getter_msg_def)
  qed
qed

lemma cycle_console:
  "\<exists>ms. console (snd (processNewLifelogs sch w s)) = console s @ ms
        \<and> filter is_getter_msg ms = []"
proof -
  obtain r f where load: "loadLastSeenTime (clock w) (init_write w) (state_file s) = (r, f)"
    by (cases "loadLastSeenTime (clock w) (init_write w) (state_file s)")
  show ?thesis
  proof (cases r)
    case (Inl e)
    have "console (snd (processNewLifelogs sch w s)) = console s @ [ErrProcessing]
            \<and> filter is_getter_msg [ErrProcessing] = []"
      by (simp add: processNewLifelogs_def cycle_body_def load Inl is_getter_msg_def)
    then show ?thesis by (rule exI)
  next
    case (Inr t)
    obtain fr g lg where fetch: "fetchStarredLifelogs (flags s) (source w t) = (fr, g, lg)"
      by (cases "fetchStarredLifelogs (flags s) (source w t)")
    from fetchStarredLifelogs_log_quiet [of "flags s" "source w t"] fetch
    have ql: "filter is_getter_msg lg = []" by simp
    show ?thesis
    proof (cases fr)
      case (Inl e)
      have "console (snd (processNewLifelogs sch w s))
              = console s @ ([LogPolling t] @ lg @ [ErrFetching])
            \<and> filter is_getter_msg ([LogPolling t] @ lg @ [ErrFetching]) = []"
        by (simp add: processNewLifelogs_def cycle_body_def load Inr fetch Inl ql
              is_getter_msg_def)
      then show ?thesis by (rule exI)
    next
      case (Inr ls)
      note frInr = this
      show ?thesis
      proof (cases "ls = []")
        case True
        have "console (snd (processNewLifelogs sch w s))
                = console s @ ([LogPolling t] @ lg @ [LogNoNew])
              \<and> filter is_getter_msg ([LogPolling t] @ lg @ [LogNoNew]) = []"
          by (simp add: processNewLifelogs_def cycle_body_def load \<open>r = Inr t\<close> fetch frInr True
                ql is_getter_msg_def)
        then show ?thesis by (rule exI)
      next
        case False
        let ?st = "process_lifelogs sch (batch w ls) (loop_start s t lg (length ls))"
        from process_lifelogs_out [of sch "batch w ls" "loop_start s t lg (length ls)"]
        obtain ms where ms: "out ?st = out (loop_start s t lg (length ls)) @ ms"
          and qm: "filter is_getter_msg ms = []" by auto
        have o: "out ?st = console s @ ([LogPolling t] @ lg @ [LogFound (length ls)] @ ms)"
          by (simp only: ms) (simp add: loop_start_def)
        have q: "filter is_getter_msg ([LogPolling t] @ lg @ [LogFound (length ls)] @ ms) = []"
          by (simp add: ql qm is_getter_msg_def)
        from load \<open>r = Inr t\<close> have load': "loadLastSeenTime (clock w) (init_write w) (state_file s) = (Inr t, f)"
          by simp
        from fetch frInr have fetch': "fetchStarredLifelogs (flags s) (source w t) = (Inr ls, g, lg)"
          by simp
        note res = cycle_nonempty [OF load' fetch' False, of sch]
        have "\<exists>tl. console (snd (processNewLifelogs sch w s)) = out ?st @ tl
                    \<and> filter is_getter_msg tl = []"
        proof (cases "processedCount ?st > 0")
          case True
          show ?thesis
          proof (cases "save_write w")
            case None
            have "console (snd (processNewLifelogs sch w s))
                    = out ?st @ [LogUpdated (maxTimestamp ?st)]
                  \<and> filter is_getter_msg [LogUpdated (maxTimestamp ?st)] = []"
              using True by (simp add: res Let_def None is_getter_msg_def)
            then show ?thesis by (rule exI)
          next
            case (Some e)
            have "console (snd (processNewLifelogs sch w s)) = out ?st @ [ErrProcessing]
                  \<and> filter is_getter_msg [ErrProcessing] = []"
              using True by (simp add: res Let_def Some is_getter_msg_def)
            then show ?thesis by (rule exI)
          qed
        next
          case False
          have "console (snd (processNewLifelogs sch w s))
                  = out ?st @ [WarnNoneProcessed (length ls)]
                \<and> filter is_getter_msg [WarnNoneProcessed (length ls)] = []"
            using False by (simp add: res Let_def is_getter_msg_def)
          then show ?thesis by (rule exI)
        qed
        then obtain tl where tl: "console (snd (processNewLifelogs sch w s)) = out ?st @ tl"
          and qt: "filter is_getter_msg tl = []" by auto
        have "console (snd (processNewLifelogs sch w s))
                = console s @ (([LogPolling t] @ lg @ [LogFound (length ls)] @ ms) @ tl)
              \<and> filter is_getter_msg (([LogPolling t] @ lg @ [LogFound (length ls)] @ ms) @ tl) = []"
          using qt by (simp add: tl o ql qm is_getter_msg_def)
        then show ?thesis by (rule exI)
      qed
    qed
  qed
qed

lemma run_cycles_console:
  "\<exists>ms. console (run_cycles sch ws s) = console s @ ms \<and> filter is_getter_msg ms = []"
proof (induction ws arbitrary: s)
  case Nil
  have "console (run_cycles sch [] s) = console s @ [] \<and> filter is_getter_msg [] = []"
    by simp
  then show ?case by (rule exI)
next
  case (Cons w ws)
  from cycle_console [of sch w s] obtain m1
    where m1: "console (snd (processNewLifelogs sch w s)) = console s @ m1"
      and q1: "filter is_getter_msg m1 = []" by auto
  from Cons.IH [of "snd (processNewLifelogs sch w s)"] obtain m2
    where m2: "console (run_cycles sch ws (snd (processNewLifelogs sch w s)))
                 = console (snd (processNewLifelogs sch w s)) @ m2"
      and q2: "filter is_getter_msg m2 = []" by auto
  have "console (run_cycles sch (w # ws) s) = console s @ (m1 @ m2)
          \<and> filter is_getter_msg (m1 @ m2) = []"
    by (simp add: m1 m2 q1 q2)
  then show ?case by (rule exI)
qed

lemma run_cycles_snoc:
  "run_cycles sch (ws @ [w]) s = snd (processNewLifelogs sch w (run_cycles sch ws s))"
  by (induction ws arbitrary: s) simp_all

lemma poll_sys: "sys (poll sch ws r) = run_cycles sch ws (sys r)"
  by (induction ws arbitrary: r) simp_all

lemma poll_live_fetches: "live_fetches (poll sch ws r) = live_fetches r"
  by (induction ws arbitrary: r) simp_all

lemma poll_cache_file: "cache_file (poll sch ws r) = cache_file r"
  by (induction ws arbitrary: r) simp_all

lemma getter_live_fetches_le: "snd (snd (snd (fetchNotionDatabaseSchema env f))) \<le> 1"
  by (simp add: fetchNotionDatabaseSchema_def Let_def
        split: response.split option.split database.split)

lemma getter_logs_once:
  "length (filter is_getter_msg (fst (snd (snd (fetchNotionDatabaseSchema env f))))) = 1"
  by (simp add: fetchNotionDatabaseSchema_def Let_def is_getter_msg_def
        split: response.split option.split database.split)

lemma startPolling_cases:
  obtains (failed) e f' lg n where "fetchNotionDatabaseSchema env cache = (Inl e, f', lg, n)"
      "startPolling env cache ws s
         = \<lparr>live_fetches = n, exit_code = Some 1, cache_file = f',
            sys = s\<lparr>console := console s @ [LogStarting] @ lg @ [ErrStartFailed]\<rparr>\<rparr>"
  | (undefined) f' lg n where "fetchNotionDatabaseSchema env cache = (Inr None, f', lg, n)"
      "startPolling env cache ws s
         = \<lparr>live_fetches = n, exit_code = Some 1, cache_file = f',
            sys = s\<lparr>console := console s @ [LogStarting] @ lg @ [ErrStartFailed]\<rparr>\<rparr>"
  | (running) sch f' lg n where "fetchNotionDatabaseSchema env cache = (Inr (Some sch), f', lg, n)"
      "startPolling env cache ws s
         = poll sch ws \<lparr>live_fetches = n, exit_code = None, cache_file = f',
                        sys = s\<lparr>console := console s @ [LogStarting] @ lg
                                   @ [LogSchemaLoaded (length sch)]\<rparr>\<rparr>"
proof -
  obtain r f' lg n where g: "fetchNotionDatabaseSchema env cache = (r, f', lg, n)"
    by (cases "fetchNotionDatabaseSchema env cache")
  show thesis
  proof (cases r)
    case (Inl e)
    with g show thesis by (intro failed [of e f' lg n]) (simp_all add: startPolling_def)
  next
    case (Inr so)
    show thesis
    proof (cases so)
      case None
      with g Inr show thesis by (intro undefined [of f' lg n]) (simp_all add: startPolling_def)
    next
      case (Some sch)
      with g Inr show thesis by (intro running [of sch f' lg n]) (simp_all add: startPolling_def)
    qed
  qed
qed

lemma startPolling_running:
  assumes g: "fetchNotionDatabaseSchema env cache = (Inr (Some sch), cache', lg, n)"
  shows "sys (startPolling env cache ws s)
           = run_cycles sch ws
               (s\<lparr>console := console s @ [LogStarting] @ lg @ [LogSchemaLoaded (length sch)]\<rparr>)"
    and "exit_code (startPolling env cache ws s) = None"
  by (simp_all add: startPolling_def g poll_sys poll_exit_code)

lemma startPolling_getter_msgs:
  "length (filter is_getter_msg (console (sys (startPolling env cache ws s))))
     = length (filter is_getter_msg (console s)) + 1"
proof (cases rule: startPolling_cases [of env cache ws s])
  case (failed e f' lg n)
  from getter_logs_once [of env cache] failed(1)
  have "length (filter is_getter_msg lg) = 1" by simp
  with failed(2) show ?thesis by (simp add: is_getter_msg_def)
next
  case (undefined f' lg n)
  from getter_logs_once [of env cache] undefined(1)
  have "length (filter is_getter_msg lg) = 1" by simp
  with undefined(2) show ?thesis by (simp add: is_getter_msg_def)
next
  case (running sch f' lg n)
  from getter_logs_once [of env cache] running(1)
  have one: "length (filter is_getter_msg lg) = 1" by simp
  let ?s1 = "s\<lparr>console := console s @ [LogStarting] @ lg @ [LogSchemaLoaded (length sch)]\<rparr>"
  from run_cycles_console [of sch ws ?s1] obtain ms
    where ms: "console (run_cycles sch ws ?s1) = console ?s1 @ ms"
      and q: "filter is_getter_msg ms = []" by auto
  have "console (sys (startPolling env cache ws s)) = console ?s1 @ ms"
    by (simp only: startPolling_running(1) [OF running(1)] ms)
  then show ?thesis by (simp add: one q is_getter_msg_def)
qed

text \<open>
  Claim C9. In a run of the service, however many cycles it has made, the schema getter
  is called once, at the start, and every cycle works with the schema that this call
  returned. When the getter has returned a schema: the service has not exited; before
  the first cycle the state is the initial one with the messages of the start; the cycle
  that follows any number of cycles is \<^verbatim>\<open>processNewLifelogs\<close> applied with that
  schema to the state they have left, so the state after the cycles is the one of the
  cycles run one after the other with that schema. In every case the console has
  received exactly one message of the getter, the live fetches of the run are those of
  that one call, at most one, and the cache file is as that call left it. So no cycle of
  a run refreshes the schema or sees another one.
\<close>

theorem schema_fetched_once_per_run:
  "(fetchNotionDatabaseSchema env cache = (Inr (Some sch), cache', lg, n) \<longrightarrow>
      exit_code (startPolling env cache ws s) = None
      \<and> sys (startPolling env cache [] s)
          = s\<lparr>console := console s @ [LogStarting] @ lg @ [LogSchemaLoaded (length sch)]\<rparr>
      \<and> sys (startPolling env cache (ws @ [w]) s)
          = snd (processNewLifelogs sch w (sys (startPolling env cache ws s)))
      \<and> sys (startPolling env cache ws s)
          = run_cycles sch ws (sys (startPolling env cache [] s)))
   \<and> length (filter is_getter_msg (console (sys (startPolling env cache ws s))))
       = length (filter is_getter_msg (console s)) + 1
   \<and> live_fetches (startPolling env cache ws s)
       = snd (snd (snd (fetchNotionDatabaseSchema env cache)))
   \<and> live_fetches (startPolling env cache ws s) \<le> 1
   \<and> cache_file (startPolling env cache ws s) = fst (snd (fetchNotionDatabaseSchema env cache))"
proof -
  have p1: "fetchNotionDatabaseSchema env cache = (Inr (Some sch), cache', lg, n) \<longrightarrow>
      exit_code (startPolling env cache ws s) = None
      \<and> sys (startPolling env cache [] s)
          = s\<lparr>console := console s @ [LogStarting] @ lg @ [LogSchemaLoaded (length sch)]\<rparr>
      \<and> sys (startPolling env cache (ws @ [w]) s)
          = snd (processNewLifelogs sch w (sys (startPolling env cache ws s)))
      \<and> sys (startPolling env cache ws s)
          = run_cycles sch ws (sys (startPolling env cache [] s))"
  proof
    assume g: "fetchNotionDatabaseSchema env cache = (Inr (Some sch), cache', lg, n)"
    show "exit_code (startPolling env cache ws s) = None
      \<and> sys (startPolling env cache [] s)
          = s\<lparr>console := console s @ [LogStarting] @ lg @ [LogSchemaLoaded (length sch)]\<rparr>
      \<and> sys (startPolling env cache (ws @ [w]) s)
          = snd (processNewLifelogs sch w (sys (startPolling env cache ws s)))
      \<and> sys (startPolling env cache ws s)
          = run_cycles sch ws (sys (startPolling env cache [] s))"
      by (simp add: startPolling_running [OF g] run_cycles_snoc)
  qed
  note p2 = startPolling_getter_msgs [of env cache ws s]
  have p345: "live_fetches (startPolling env cache ws s)
       = snd (snd (snd (fetchNotionDatabaseSchema env cache)))
   \<and> live_fetches (startPolling env cache ws s) \<le> 1
   \<and> cache_file (startPolling env cache ws s) = fst (snd (fetchNotionDatabaseSchema env cache))"
  proof (cases rule: startPolling_cases [of env cache ws s])
    case (failed e f' lg n)
    from getter_live_fetches_le [of env cache] failed(1) have "n \<le> 1" by simp
    with failed show ?thesis by simp
  next
    case (undefined f' lg n)
    from getter_live_fetches_le [of env cache] undefined(1) have "n \<le> 1" by simp
    with undefined show ?thesis by simp
  next
    case (running sch' f' lg n)
    from getter_live_fetches_le [of env cache] running(1) have "n \<le> 1" by simp
    with running show ?thesis by (simp add: poll_live_fetches poll_cache_file)
  qed
  from p1 p2 p345 show ?thesis by simp
qed

lemma example_getter:
  "fetchNotionDatabaseSchema env_boot cache_fresh
     = (Inr (Some schema0), cache_fresh, [LogUsingCached], 0)"
  by (simp add: fetchNotionDatabaseSchema_def fresh_cache_def cache_fresh_def env_boot_def)

lemma example_page_b:
  "pageData env_fail lifelog_b schema0
     = \<lparr>properties = [(''Title'', TitleValue ''Untitled''), (''Notes'', RichTextValue ''hello'')],
        children = [''hello'']\<rparr>"
  by (simp add: pageData_def env_fail_def fallbackProperties_def Let_def lifelog_b_def
        js_or_def truthy_def or_else_def schema0_def)

lemma example_page_a:
  "pageData env_ok lifelog_a schema0
     = \<lparr>properties = [(''Title'', TitleValue ''T'')], children = []\<rparr>"
  by (simp add: pageData_def env_ok_def fallbackProperties_def Let_def lifelog_a_def
        js_or_def truthy_def or_else_def)

theorem schema_fetched_once_per_run_witness:
  "fetchNotionDatabaseSchema env_boot cache_fresh
     = (Inr (Some schema0), cache_fresh, [LogUsingCached], 0)
   \<and> exit_code (startPolling env_boot cache_fresh [world0] system0) = None
   \<and> sys (startPolling env_boot cache_fresh [] system0)
       = system0\<lparr>console := [LogStarting, LogUsingCached, LogSchemaLoaded 2]\<rparr>
   \<and> sys (startPolling env_boot cache_fresh ([world0] @ [world_down]) system0)
       = snd (processNewLifelogs schema0 world_down
               (sys (startPolling env_boot cache_fresh [world0] system0)))
   \<and> posted (sys (startPolling env_boot cache_fresh [world0] system0))
       = [\<lparr>properties = [(''Title'', TitleValue ''T'')], children = []\<rparr>,
          \<lparr>properties = [(''Title'', TitleValue ''Untitled''),
                         (''Notes'', RichTextValue ''hello'')],
            children = [''hello'']\<rparr>]
   \<and> length (filter is_getter_msg
        (console (sys (startPolling env_boot cache_fresh [world0] system0)))) = 1
   \<and> live_fetches (startPolling env_boot cache_fresh [world0] system0) = 0
   \<and> cache_file (startPolling env_boot cache_fresh [world0] system0) = cache_fresh"
proof -
  note t = schema_fetched_once_per_run
    [of env_boot cache_fresh schema0 cache_fresh "[LogUsingCached]" 0 "[world0]" system0
        world_down]
  note t1 = mp [OF conjunct1 [OF t] example_getter]
  note c1 = conjunct1 [OF t1]
  have c2: "sys (startPolling env_boot cache_fresh [] system0)
       = system0\<lparr>console := [LogStarting, LogUsingCached, LogSchemaLoaded 2]\<rparr>"
    using conjunct1 [OF conjunct2 [OF t1]] by (simp add: system0_def schema0_def)
  note c3 = conjunct1 [OF conjunct2 [OF conjunct2 [OF t1]]]
  note run = conjunct2 [OF conjunct2 [OF conjunct2 [OF t1]]]
  let ?s1 = "system0\<lparr>console := [LogStarting, LogUsingCached, LogSchemaLoaded 2]\<rparr>"
  have run1: "sys (startPolling env_boot cache_fresh [world0] system0)
                = snd (processNewLifelogs schema0 world0 ?s1)"
    by (simp only: run c2) simp
  have load: "loadLastSeenTime (clock world0) (init_write world0) (state_file ?s1)
      = (Inr ''2025-01-01T00:00:00Z'', Holds \<lparr>lastSeenTime = Some ''2025-01-01T00:00:00Z''\<rparr>)"
    using example_load by simp
  have fetch: "fetchStarredLifelogs (flags ?s1) (source world0 ''2025-01-01T00:00:00Z'')
      = (Inr [lifelog_a, lifelog_b], \<lparr>responseLogged = True, warningShown = False\<rparr>,
         [LogResponseStructure])"
    using example_fetch by simp
  have ne: "[lifelog_a, lifelog_b] \<noteq> []" by simp
  have ps: "posted ?s1 = []" by (simp add: system0_def)
  have c4: "posted (sys (startPolling env_boot cache_fresh [world0] system0))
       = [\<lparr>properties = [(''Title'', TitleValue ''T'')], children = []\<rparr>,
          \<lparr>properties = [(''Title'', TitleValue ''Untitled''),
                         (''Notes'', RichTextValue ''hello'')],
            children = [''hello'']\<rparr>]"
    using conjunct1 [OF conjunct2
            [OF cycle_on_batch [OF load fetch ne, of schema0]]]
    by (simp only: run1 ps example_batch) (simp add: example_page_a example_page_b)
  note r2 = conjunct2 [OF t]
  have c5: "length (filter is_getter_msg
        (console (sys (startPolling env_boot cache_fresh [world0] system0)))) = 1"
    using conjunct1 [OF r2] by (simp add: system0_def)
  have c6: "live_fetches (startPolling env_boot cache_fresh [world0] system0) = 0"
    using conjunct1 [OF conjunct2 [OF r2]] by (simp add: example_getter)
  have c7: "cache_file (startPolling env_boot cache_fresh [world0] system0) = cache_fresh"
    using conjunct2 [OF conjunct2 [OF conjunct2 [OF r2]]] by (simp add: example_getter)
  from example_getter c1 c2 c3 c4 c5 c6 c7 show ?thesis by (intro conjI)
qed

section \<open>Properties of the fallback mapping\<close>












section \<open>Properties of the normalisation of the response\<close>

lemma handleResponse_fst_flags:
  "fst (handleResponse g data) = fst (handleResponse g' data)"
  by (simp add: handleResponse_def split: json.split option.split)

lemma handleResponse_keeps_warningShown:
  "warningShown g \<Longrightarrow> warningShown (fst (snd (handleResponse g data)))"
  by (simp add: handleResponse_def split: json.split option.split)

text \<open>
  What the normalisation yields. The array itself for a bare array, and the contained
  array for each of the shapes \<^verbatim>\<open>{lifelogs:[...]}\<close>, \<^verbatim>\<open>{data:{lifelogs:[...]}}\<close>,
  \<^verbatim>\<open>{data:[...]}\<close>, \<^verbatim>\<open>{results:[...]}\<close> and \<^verbatim>\<open>{items:[...]}\<close>; an object with
  several of these keys is matched in the order \<^verbatim>\<open>data.lifelogs\<close>,
  \<^verbatim>\<open>lifelogs\<close>, \<^verbatim>\<open>data\<close>, \<^verbatim>\<open>results\<close>, \<^verbatim>\<open>items\<close>. An object that
  matches none yields the empty sequence, with a warning unless the flag is set, and sets
  the flag. A response that is not an object yields the empty sequence with a warning,
  whatever the flags. The lifelogs that \<^verbatim>\<open>fetchStarredLifelogs\<close> returns for a
  successful response are the ones of the normalisation.
\<close>

lemma handleResponse_shapes:
  "handleResponse g (JArr xs) = (xs, g, [])
   \<and> handleResponse g (JObj [(''lifelogs'', JArr xs)]) = (xs, g, [])
   \<and> handleResponse g (JObj [(''data'', JObj [(''lifelogs'', JArr xs)])]) = (xs, g, [])
   \<and> handleResponse g (JObj [(''data'', JArr xs)]) = (xs, g, [])
   \<and> handleResponse g (JObj [(''results'', JArr xs)]) = (xs, g, [])
   \<and> handleResponse g (JObj [(''items'', JArr xs)]) = (xs, g, [])
   \<and> fst (handleResponse g (JObj fs))
       = (case nested_lifelogs (JObj fs) of Some ys \<Rightarrow> ys | None \<Rightarrow>
          case array_prop ''lifelogs'' (JObj fs) of Some ys \<Rightarrow> ys | None \<Rightarrow>
          case array_prop ''data'' (JObj fs) of Some ys \<Rightarrow> ys | None \<Rightarrow>
          case array_prop ''results'' (JObj fs) of Some ys \<Rightarrow> ys | None \<Rightarrow>
          case array_prop ''items'' (JObj fs) of Some ys \<Rightarrow> ys | None \<Rightarrow> [])
   \<and> (nested_lifelogs (JObj fs) = None \<and> array_prop ''lifelogs'' (JObj fs) = None
        \<and> array_prop ''data'' (JObj fs) = None \<and> array_prop ''results'' (JObj fs) = None
        \<and> array_prop ''items'' (JObj fs) = None
       \<longrightarrow> handleResponse g (JObj fs)
             = (if warningShown g then ([], g, [])
                else ([], g\<lparr>warningShown := True\<rparr>,
                      [WarnUnexpectedStructure]
                      @ (if json_truthy (field ''data'' (JObj fs)) then [WarnDataKeys] else [])
                      @ [WarnFullResponse])))
   \<and> handleResponse g JNull = ([], g, [WarnUnexpectedType])
   \<and> handleResponse g (JBool b) = ([], g, [WarnUnexpectedType])
   \<and> handleResponse g (JNum n) = ([], g, [WarnUnexpectedType])
   \<and> handleResponse g (JStr str) = ([], g, [WarnUnexpectedType])
   \<and> (warningShown g \<longrightarrow> warningShown (fst (snd (handleResponse g data))))
   \<and> (ok status \<longrightarrow>
        fst (fetchStarredLifelogs g (Response status (Some data)))
          = Inr (fst (handleResponse g data)))"
proof -
  have s1: "handleResponse g (JArr xs) = (xs, g, [])"
    by (simp add: handleResponse_def)
  have s2: "handleResponse g (JObj [(''lifelogs'', JArr xs)]) = (xs, g, [])"
    by (simp add: handleResponse_def nested_lifelogs_def array_prop_def)
  have s3: "handleResponse g (JObj [(''data'', JObj [(''lifelogs'', JArr xs)])]) = (xs, g, [])"
    by (simp add: handleResponse_def nested_lifelogs_def array_prop_def)
  have s4: "handleResponse g (JObj [(''data'', JArr xs)]) = (xs, g, [])"
    by (simp add: handleResponse_def nested_lifelogs_def array_prop_def)
  have s5: "handleResponse g (JObj [(''results'', JArr xs)]) = (xs, g, [])"
    by (simp add: handleResponse_def nested_lifelogs_def array_prop_def)
  have s6: "handleResponse g (JObj [(''items'', JArr xs)]) = (xs, g, [])"
    by (simp add: handleResponse_def nested_lifelogs_def array_prop_def)
  have s7: "fst (handleResponse g (JObj fs))
       = (case nested_lifelogs (JObj fs) of Some ys \<Rightarrow> ys | None \<Rightarrow>
          case array_prop ''lifelogs'' (JObj fs) of Some ys \<Rightarrow> ys | None \<Rightarrow>
          case array_prop ''data'' (JObj fs) of Some ys \<Rightarrow> ys | None \<Rightarrow>
          case array_prop ''results'' (JObj fs) of Some ys \<Rightarrow> ys | None \<Rightarrow>
          case array_prop ''items'' (JObj fs) of Some ys \<Rightarrow> ys | None \<Rightarrow> [])"
    by (simp add: handleResponse_def split: option.split)
  have s8: "nested_lifelogs (JObj fs) = None \<and> array_prop ''lifelogs'' (JObj fs) = None
        \<and> array_prop ''data'' (JObj fs) = None \<and> array_prop ''results'' (JObj fs) = None
        \<and> array_prop ''items'' (JObj fs) = None
       \<longrightarrow> handleResponse g (JObj fs)
             = (if warningShown g then ([], g, [])
                else ([], g\<lparr>warningShown := True\<rparr>,
                      [WarnUnexpectedStructure]
                      @ (if json_truthy (field ''data'' (JObj fs)) then [WarnDataKeys] else [])
                      @ [WarnFullResponse]))"
    by (simp add: handleResponse_def)
  have s9: "handleResponse g JNull = ([], g, [WarnUnexpectedType])"
    by (simp add: handleResponse_def)
  have s10: "handleResponse g (JBool b) = ([], g, [WarnUnexpectedType])"
    by (simp add: handleResponse_def)
  have s11: "handleResponse g (JNum n) = ([], g, [WarnUnexpectedType])"
    by (simp add: handleResponse_def)
  have s12: "handleResponse g (JStr str) = ([], g, [WarnUnexpectedType])"
    by (simp add: handleResponse_def)
  have s13: "warningShown g \<longrightarrow> warningShown (fst (snd (handleResponse g data)))"
    by (simp add: handleResponse_keeps_warningShown)
  have s14: "ok status \<longrightarrow>
        fst (fetchStarredLifelogs g (Response status (Some data)))
          = Inr (fst (handleResponse g data))"
  proof
    assume okk: "ok status"
    obtain ys g2 lg2 where h: "handleResponse
        (if \<not> responseLogged g then g\<lparr>responseLogged := True\<rparr> else g) data = (ys, g2, lg2)"
      by (cases "handleResponse
        (if \<not> responseLogged g then g\<lparr>responseLogged := True\<rparr> else g) data")
    have "fst (handleResponse g data)
        = fst (handleResponse (if \<not> responseLogged g then g\<lparr>responseLogged := True\<rparr> else g) data)"
      by (rule handleResponse_fst_flags)
    with h have "fst (handleResponse g data) = ys" by simp
    with okk h show "fst (fetchStarredLifelogs g (Response status (Some data)))
          = Inr (fst (handleResponse g data))"
      by (simp add: fetchStarredLifelogs_def Let_def)
  qed
  from s1 s2 s3 s4 s5 s6 s7 s8 s9 s10 s11 s12 s13 s14 show ?thesis by (intro conjI)
qed

text \<open>
  Claim C5. The normalisation yields the array of each known shape, and for any other
  shape, a response that is not an object included, the empty sequence with a diagnostic
  that is logged once. The code breaks the last part for a response that is not an
  object: the branch of the unknown object logs its warning under a flag, once in the
  process, and the branch of the response that is not an object logs its warning with
  no flag. Here two responses \<^verbatim>\<open>null\<close> in a row, the flags of the first call handed
  to the second, are each answered with the warning, where two unknown objects in a row
  are answered with the warning the first time only.
\<close>

theorem non_object_warning_every_time:
  "fetchStarredLifelogs \<lparr>responseLogged = False, warningShown = False\<rparr>
       (Response 200 (Some (JNull :: lifelog json)))
     = (Inr [], \<lparr>responseLogged = True, warningShown = False\<rparr>,
        [LogResponseStructure, WarnUnexpectedType])
   \<and> fetchStarredLifelogs \<lparr>responseLogged = True, warningShown = False\<rparr>
       (Response 200 (Some (JNull :: lifelog json)))
     = (Inr [], \<lparr>responseLogged = True, warningShown = False\<rparr>, [WarnUnexpectedType])
   \<and> fetchStarredLifelogs \<lparr>responseLogged = False, warningShown = False\<rparr>
       (Response 200 (Some odd_object))
     = (Inr [], \<lparr>responseLogged = True, warningShown = True\<rparr>,
        [LogResponseStructure, WarnUnexpectedStructure, WarnFullResponse])
   \<and> fetchStarredLifelogs \<lparr>responseLogged = True, warningShown = True\<rparr>
       (Response 200 (Some odd_object))
     = (Inr [], \<lparr>responseLogged = True, warningShown = True\<rparr>, [])"
  by (simp add: fetchStarredLifelogs_def handleResponse_def ok_def odd_object_def
        nested_lifelogs_def array_prop_def)

end
